theory Spec2Isabelle
  imports Main
begin

section \<open>Bluetooth relay extension: the data model\<close>

text \<open>
  The extension (\<^verbatim>\<open>bt-relay-xcratch.js\<close>, in its UMD and its ESM form: the two files
  have the same function bodies) keeps all of its data in module-level variables. They
  become the fields of one record, and every function of the source becomes a function
  from the record to the updated record.

  Strings are byte strings: a JavaScript string stands here as its UTF-8 encoding, so the
  Japanese messages of the source are written as their bytes.

  A value that the source throws or a promise rejects with is either an error object,
  with a name and a message (\<^verbatim>\<open>new Error(msg)\<close>, a DOMException of the transport), or a
  plain string.
\<close>

datatype jsval = Str string | Err (err_name: string) (err_message: string)

text \<open>\<^verbatim>\<open>String(e)\<close>: \<^verbatim>\<open>Error.prototype.toString\<close> joins name and message with a colon
  and leaves out whichever is empty.\<close>

fun js_String :: "jsval \<Rightarrow> string" where
  "js_String (Str t) = t"
| "js_String (Err n m) = (if n = [] then m else if m = [] then n else n @ '': '' @ m)"

text \<open>The BluetoothDevice objects live outside the program and are shared by reference: the
  variable \<^verbatim>\<open>device\<close>, the entries of \<^verbatim>\<open>known\<close> and the GATT objects
  \<^verbatim>\<open>server\<close>, \<^verbatim>\<open>rxChar\<close>, \<^verbatim>\<open>txChar\<close> all point into them. A handle is the address of
  a device object; a GATT server or characteristic is named by the handle of its device.\<close>

type_synonym handle = nat

record bt_device =
  dev_id :: string
  dev_name :: string
  gatt_connected :: bool

record known_entry =
  entry_id :: string
  entry_name :: string
  entry_device :: handle

datatype uuid = NUS_SERVICE | NUS_RX_CHAR | NUS_TX_CHAR

datatype scan_mode = NamePrefixFilters | AcceptAllDevices

text \<open>Every call into the transport is appended to a trace. The outcome of the call made
  at position \<open>n\<close> of the trace is fixed by the environment: \<open>io_result n\<close> is \<open>None\<close>
  when the promise resolves and \<open>Some e\<close> when it rejects with \<open>e\<close>; \<open>scan_result n\<close> is
  the device the chooser returns, or the rejection.\<close>

datatype call =
    RequestDevice scan_mode
  | GattConnect handle
  | GattDisconnect handle
  | GetPrimaryService handle uuid
  | GetCharacteristic handle uuid
  | StartNotifications handle
  | WriteValue handle string

record state =
  heap :: "handle \<Rightarrow> bt_device"
  device :: "handle option"
  server :: "handle option"
  rxChar :: "handle option"
  txChar :: "handle option"
  connected :: bool
  connecting :: bool
  wantReconnect :: bool
  deviceName :: string
  deviceId :: string
  known :: "string \<rightharpoonup> known_entry"
  lastStateText :: string
  lastStateNum :: int
  prevStateNum :: int
  lastError :: string
  edgeOn :: bool
  edgeOff :: bool
  edgeConnected :: bool
  edgeDisconnected :: bool
  prevConnected :: bool
  backoffMs :: nat
  reconnectTimer :: "nat option"
  pollIntervalMs :: nat
  pollTimer :: "nat option"
  sendQueue :: "string list"
  trace :: "call list"
  io_result :: "nat \<Rightarrow> jsval option"
  scan_result :: "nat \<Rightarrow> jsval + handle"

definition backoffMax :: nat where
  "backoffMax = 15000"

definition QUEUE_MAX :: nat where
  "QUEUE_MAX = 20"

text \<open>The messages of the three errors the program itself raises, as UTF-8 bytes:
  "not connected", "there is no previously connected device" and "unknown ID: ".\<close>

definition msg_not_connected :: string where
  "msg_not_connected =
     [CHR 0xE6, CHR 0x9C, CHR 0xAA, CHR 0xE6, CHR 0x8E, CHR 0xA5, CHR 0xE7, CHR 0xB6,
      CHR 0x9A, CHR 0xE3, CHR 0x81, CHR 0xA7, CHR 0xE3, CHR 0x81, CHR 0x99]"

definition msg_no_device :: string where
  "msg_no_device =
     [CHR 0xE4, CHR 0xBB, CHR 0xA5, CHR 0xE5, CHR 0x89, CHR 0x8D, CHR 0xE3, CHR 0x81,
      CHR 0xAB, CHR 0xE6, CHR 0x8E, CHR 0xA5, CHR 0xE7, CHR 0xB6, CHR 0x9A, CHR 0xE3,
      CHR 0x81, CHR 0x97, CHR 0xE3, CHR 0x81, CHR 0x9F, CHR 0xE3, CHR 0x83, CHR 0x87,
      CHR 0xE3, CHR 0x83, CHR 0x90, CHR 0xE3, CHR 0x82, CHR 0xA4, CHR 0xE3, CHR 0x82,
      CHR 0xB9, CHR 0xE3, CHR 0x81, CHR 0x8C, CHR 0xE3, CHR 0x81, CHR 0x82, CHR 0xE3,
      CHR 0x82, CHR 0x8A, CHR 0xE3, CHR 0x81, CHR 0xBE, CHR 0xE3, CHR 0x81, CHR 0x9B,
      CHR 0xE3, CHR 0x82, CHR 0x93]"

definition msg_unknown_id :: string where
  "msg_unknown_id =
     [CHR 0xE6, CHR 0x9C, CHR 0xAA, CHR 0xE7, CHR 0x9F, CHR 0xA5, CHR 0xE3, CHR 0x81,
      CHR 0xAE] @ ''ID: ''"

section \<open>Errors, timers\<close>

text \<open>\<^verbatim>\<open>lastError = (e && e.message) ? e.message : String(e || '')\<close>. A string has no
  \<^verbatim>\<open>message\<close>, so it is stored as it is.\<close>

fun setError :: "jsval \<Rightarrow> state \<Rightarrow> state" where
  "setError (Err n m) s = s\<lparr>lastError := (if m \<noteq> [] then m else js_String (Err n m))\<rparr>"
| "setError (Str t) s = s\<lparr>lastError := t\<rparr>"

definition clearError :: "state \<Rightarrow> state" where
  "clearError s = s\<lparr>lastError := []\<rparr>"

text \<open>A pending timer is \<open>Some d\<close>, with the delay it was armed with.\<close>

definition stopPolling :: "state \<Rightarrow> state" where
  "stopPolling s = (if pollTimer s \<noteq> None then s\<lparr>pollTimer := None\<rparr> else s)"

definition startPolling :: "state \<Rightarrow> state" where
  "startPolling s =
     (let s1 = stopPolling s
      in if pollIntervalMs s1 > 0 \<and> connected s1
         then s1\<lparr>pollTimer := Some (pollIntervalMs s1)\<rparr> else s1)"

definition stopReconnectTimer :: "state \<Rightarrow> state" where
  "stopReconnectTimer s =
     (if reconnectTimer s \<noteq> None then s\<lparr>reconnectTimer := None\<rparr> else s)"

text \<open>\<^verbatim>\<open>scheduleReconnect\<close> only arms the timer; the callback it installs is
  \<open>reconnectTimer_fire\<close> below.\<close>

definition scheduleReconnect :: "state \<Rightarrow> state" where
  "scheduleReconnect s =
     (if \<not> wantReconnect s then s
      else if reconnectTimer s \<noteq> None then s
      else s\<lparr>reconnectTimer := Some (backoffMs s)\<rparr>)"

section \<open>State tracker\<close>

definition updateStateFromText :: "string \<Rightarrow> state \<Rightarrow> state" where
  "updateStateFromText v s =
     (let s1 = s\<lparr>lastStateText := v\<rparr>;
          before = lastStateNum s1;
          s2 = (if v = ''on'' \<or> v = ''1'' then s1\<lparr>lastStateNum := 1\<rparr>
                else if v = ''off'' \<or> v = ''0'' then s1\<lparr>lastStateNum := 0\<rparr>
                else s1);
          s3 = (if before = 0 \<and> lastStateNum s2 = 1 then s2\<lparr>edgeOn := True\<rparr> else s2);
          s4 = (if before = 1 \<and> lastStateNum s3 = 0 then s3\<lparr>edgeOff := True\<rparr> else s3)
      in s4\<lparr>prevStateNum := lastStateNum s4\<rparr>)"

text \<open>The hat blocks read a flag and clear it.\<close>

definition whenOn :: "state \<Rightarrow> bool \<times> state" where
  "whenOn s = (if edgeOn s then (True, s\<lparr>edgeOn := False\<rparr>) else (False, s))"

definition whenOff :: "state \<Rightarrow> bool \<times> state" where
  "whenOff s = (if edgeOff s then (True, s\<lparr>edgeOff := False\<rparr>) else (False, s))"

section \<open>Sending\<close>

text \<open>A call into the transport is traced, and the environment resolves or rejects it.
  \<^verbatim>\<open>rxChar.writeValue(data)\<close> is such a call (\<^verbatim>\<open>TextEncoder\<close> yields the UTF-8 bytes,
  which the string already is).\<close>

definition transport :: "call \<Rightarrow> state \<Rightarrow> (jsval + unit) \<times> state" where
  "transport c s =
     (case io_result s (length (trace s)) of
        None \<Rightarrow> (Inr (), s\<lparr>trace := trace s @ [c]\<rparr>)
      | Some e \<Rightarrow> (Inl e, s\<lparr>trace := trace s @ [c]\<rparr>))"

definition writeValue :: "handle \<Rightarrow> string \<Rightarrow> state \<Rightarrow> (jsval + unit) \<times> state" where
  "writeValue h d s = transport (WriteValue h d) s"

text \<open>An async function returns the value it throws (\<open>Inl\<close>) or returns (\<open>Inr\<close>), and the
  state it leaves. \<^verbatim>\<open>shift\<close> on a JavaScript array drops the first element (and does
  nothing to an empty array), \<^verbatim>\<open>push\<close> appends.\<close>

definition sendAscii :: "string \<Rightarrow> state \<Rightarrow> (jsval + unit) \<times> state" where
  "sendAscii str s =
     (if \<not> connected s \<or> rxChar s = None then
        (if wantReconnect s then
           (let s1 = (if length (sendQueue s) \<ge> QUEUE_MAX
                      then s\<lparr>sendQueue := tl (sendQueue s)\<rparr> else s);
                s2 = s1\<lparr>sendQueue := sendQueue s1 @ [str]\<rparr>
            in (Inr (), scheduleReconnect s2))
         else (Inl (Err ''Error'' msg_not_connected), s))
      else (case rxChar s of
              Some h \<Rightarrow> writeValue h str s
            | None \<Rightarrow> (Inl (Err ''Error'' msg_not_connected), s)))"

definition readState :: "state \<Rightarrow> (jsval + unit) \<times> state" where
  "readState s = sendAscii ''s'' s"

section \<open>Connection set-up\<close>

text \<open>\<^verbatim>\<open>setupGatt\<close> resolves the service and the two characteristics of \<^verbatim>\<open>server\<close> and
  subscribes to notifications; each of its four awaits may reject, and what was assigned
  before stays assigned. The listener it installs delivers every notification, decoded
  and trimmed, to \<open>updateStateFromText\<close>. With \<^verbatim>\<open>server\<close> null the first line is a
  TypeError (the message is V8's).\<close>

definition setupGatt :: "state \<Rightarrow> (jsval + unit) \<times> state" where
  "setupGatt s =
     (case server s of
        None \<Rightarrow>
          (Inl (Err ''TypeError''
             ''Cannot read properties of null (reading 'getPrimaryService')''), s)
      | Some h \<Rightarrow>
          (case transport (GetPrimaryService h NUS_SERVICE) s of
             (Inl e, s1) \<Rightarrow> (Inl e, s1)
           | (Inr _, s1) \<Rightarrow>
          (case transport (GetCharacteristic h NUS_RX_CHAR) s1 of
             (Inl e, s2) \<Rightarrow> (Inl e, s2)
           | (Inr _, s2) \<Rightarrow>
          (case transport (GetCharacteristic h NUS_TX_CHAR) (s2\<lparr>rxChar := Some h\<rparr>) of
             (Inl e, s3) \<Rightarrow> (Inl e, s3)
           | (Inr _, s3) \<Rightarrow>
          transport (StartNotifications h) (s3\<lparr>txChar := Some h\<rparr>)))))"

text \<open>The loop at the end of \<^verbatim>\<open>onConnected\<close>. It need not end: with \<^verbatim>\<open>rxChar\<close> null
  and \<^verbatim>\<open>wantReconnect\<close> set, \<open>sendAscii\<close> puts the token it was given back at the end of
  the queue. Not returning is the value \<open>None\<close>.\<close>

partial_function (option) drainQueue :: "state \<Rightarrow> state option" where
  "drainQueue s =
     (case sendQueue s of
        [] \<Rightarrow> Some s
      | x # q \<Rightarrow>
          if \<not> connected s then Some s
          else (case sendAscii x (s\<lparr>sendQueue := q\<rparr>) of
                  (Inl e, s1) \<Rightarrow> Some (setError e s1)
                | (Inr _, s1) \<Rightarrow> drainQueue s1))"

text \<open>\<^verbatim>\<open>onConnected\<close> is its straight-line part, up to \<^verbatim>\<open>startPolling()\<close>, and then the
  loop.\<close>

definition onConnected_flags :: "state \<Rightarrow> state" where
  "onConnected_flags s =
     (let s1 = clearError (s\<lparr>connected := True, connecting := False, backoffMs := 1000\<rparr>);
          s2 = (if \<not> prevConnected s1
                then s1\<lparr>edgeConnected := True, prevConnected := True\<rparr> else s1)
      in startPolling s2)"

definition onConnected :: "state \<Rightarrow> state option" where
  "onConnected s = drainQueue (onConnected_flags s)"

text \<open>The three lines
  \<^verbatim>\<open>server = await device.gatt.connect(); await setupGatt(); await onConnected();\<close>
  stand in \<^verbatim>\<open>requestAndConnect\<close>, \<^verbatim>\<open>reconnect\<close> and \<^verbatim>\<open>connectSendById\<close> alike. The
  call is issued (\<open>gattConnect_issue\<close>), and the caller goes on when it settles: \<open>n\<close> is
  the position of the call in the trace. A connect that resolves sets the device's
  \<^verbatim>\<open>gatt.connected\<close>.\<close>

definition gattConnect_issue :: "handle \<Rightarrow> state \<Rightarrow> state" where
  "gattConnect_issue d s = s\<lparr>trace := trace s @ [GattConnect d]\<rparr>"

definition gattConnect_settled :: "handle \<Rightarrow> nat \<Rightarrow> state \<Rightarrow> ((jsval + unit) \<times> state) option" where
  "gattConnect_settled d n s =
     (case io_result s n of
        Some e \<Rightarrow> Some (Inl e, s)
      | None \<Rightarrow>
          (let s1 = s\<lparr>heap := (heap s)(d := (heap s d)\<lparr>gatt_connected := True\<rparr>),
                       server := Some d\<rparr>
           in case setupGatt s1 of
                (Inl e, s2) \<Rightarrow> Some (Inl e, s2)
              | (Inr _, s2) \<Rightarrow> map_option (Pair (Inr ())) (onConnected s2)))"

definition connectAndSetup :: "handle \<Rightarrow> state \<Rightarrow> ((jsval + unit) \<times> state) option" where
  "connectAndSetup d s = gattConnect_settled d (length (trace s)) (gattConnect_issue d s)"

section \<open>Device registry\<close>

definition rememberDevice :: "handle \<Rightarrow> state \<Rightarrow> state" where
  "rememberDevice h s =
     s\<lparr>known := (known s)(dev_id (heap s h) \<mapsto>
          \<lparr>entry_id = dev_id (heap s h), entry_name = dev_name (heap s h),
           entry_device = h\<rparr>)\<rparr>"

definition findById :: "string \<Rightarrow> state \<Rightarrow> handle option" where
  "findById i s = map_option entry_device (known s i)"

section \<open>Link operations\<close>

text \<open>The chooser is asked with the name filters first and, when that rejects, once more
  for any device.\<close>

definition requestDevice :: "state \<Rightarrow> (jsval + handle) \<times> state" where
  "requestDevice s =
     (let s1 = s\<lparr>trace := trace s @ [RequestDevice NamePrefixFilters]\<rparr>
      in case scan_result s (length (trace s)) of
           Inr h \<Rightarrow> (Inr h, s1)
         | Inl _ \<Rightarrow> (scan_result s (length (trace s1)),
                     s1\<lparr>trace := trace s1 @ [RequestDevice AcceptAllDevices]\<rparr>))"

definition attachDevice :: "handle \<Rightarrow> state \<Rightarrow> state" where
  "attachDevice dev s =
     rememberDevice dev
       (s\<lparr>device := Some dev, deviceName := dev_name (heap s dev),
          deviceId := dev_id (heap s dev)\<rparr>)"

definition requestAndConnect :: "state \<Rightarrow> ((jsval + unit) \<times> state) option" where
  "requestAndConnect s =
     (case requestDevice s of
        (Inl e, s1) \<Rightarrow> Some (Inl e, s1)
      | (Inr dev, s1) \<Rightarrow> connectAndSetup dev (attachDevice dev s1))"

text \<open>\<^verbatim>\<open>reconnect\<close>: \<open>reconnect_pending\<close> is the state in which a call that got past
  both guards is suspended at its first await, with the flag set and the connect issued.
  The \<^verbatim>\<open>finally\<close> clears the flag whatever happened.\<close>

definition reconnect_pending :: "handle \<Rightarrow> state \<Rightarrow> state" where
  "reconnect_pending d s = gattConnect_issue d (s\<lparr>connecting := True\<rparr>)"

definition reconnect :: "state \<Rightarrow> ((jsval + unit) \<times> state) option" where
  "reconnect s =
     (case device s of
        None \<Rightarrow> Some (Inl (Err ''Error'' msg_no_device), s)
      | Some d \<Rightarrow>
          if connecting s \<or> gatt_connected (heap s d) then Some (Inr (), s)
          else (case gattConnect_settled d (length (trace s)) (reconnect_pending d s) of
                  None \<Rightarrow> None
                | Some (r, s1) \<Rightarrow> Some (r, s1\<lparr>connecting := False\<rparr>)))"

text \<open>The callback of the reconnect timer.\<close>

definition reconnectTimer_fire :: "state \<Rightarrow> state option" where
  "reconnectTimer_fire s =
     (case reconnect (s\<lparr>reconnectTimer := None\<rparr>) of
        None \<Rightarrow> None
      | Some (Inr _, s1) \<Rightarrow> Some s1
      | Some (Inl e, s1) \<Rightarrow>
          (let s2 = setError e s1
           in Some (scheduleReconnect (s2\<lparr>backoffMs := min (backoffMs s2 * 2) backoffMax\<rparr>))))"

definition handleDisconnected :: "state \<Rightarrow> state" where
  "handleDisconnected s =
     (let s1 = (if connected s
                then s\<lparr>connected := False, edgeDisconnected := True, prevConnected := False\<rparr>
                else s);
          s2 = stopPolling s1
      in if wantReconnect s2 then scheduleReconnect s2 else s2)"

definition disconnectInternal :: "bool \<Rightarrow> state \<Rightarrow> state" where
  "disconnectInternal forget s =
     (let s1 = (case device s of
                  None \<Rightarrow> s
                | Some d \<Rightarrow>
                    if gatt_connected (heap s d)
                    then s\<lparr>heap := (heap s)(d := (heap s d)\<lparr>gatt_connected := False\<rparr>),
                           trace := trace s @ [GattDisconnect d]\<rparr>
                    else s);
          s2 = s1\<lparr>server := None, rxChar := None, txChar := None\<rparr>;
          s3 = (if connected s2
                then s2\<lparr>connected := False, edgeDisconnected := True, prevConnected := False\<rparr>
                else s2);
          s4 = stopPolling (s3\<lparr>connecting := False\<rparr>)
      in case device s4 of
           None \<Rightarrow> s4
         | Some d \<Rightarrow>
             if forget
             then s4\<lparr>known := (known s4)(dev_id (heap s4 d) := None), device := None,
                     deviceId := [], deviceName := [], prevStateNum := 0,
                     lastStateNum := 0, lastStateText := []\<rparr>
             else s4)"

text \<open>\<^verbatim>\<open>connectSendById\<close> compares the ids of the active and the looked-up device, not
  the objects.\<close>

definition connectSendById :: "string \<Rightarrow> string \<Rightarrow> state \<Rightarrow> ((jsval + unit) \<times> state) option" where
  "connectSendById i action s =
     (case findById i s of
        None \<Rightarrow> Some (Inl (Err ''Error'' (msg_unknown_id @ i)), s)
      | Some dev \<Rightarrow>
          (let switched = s\<lparr>device := Some dev, deviceName := dev_name (heap s dev),
                            deviceId := dev_id (heap s dev)\<rparr>;
               (d, s1) = (case device s of
                            None \<Rightarrow> (dev, switched)
                          | Some cur \<Rightarrow>
                              if dev_id (heap s cur) \<noteq> dev_id (heap s dev)
                              then (dev, switched) else (cur, s))
           in case (if \<not> gatt_connected (heap s1 d) then connectAndSetup d s1
                    else Some (Inr (), s1)) of
                None \<Rightarrow> None
              | Some (Inl e, s2) \<Rightarrow> Some (Inl e, s2)
              | Some (Inr _, s2) \<Rightarrow>
                  Some (if action = ''ON'' then sendAscii ''1'' s2
                        else if action = ''OFF'' then sendAscii ''0'' s2
                        else if action = ''TOGGLE'' then sendAscii ''t'' s2
                        else readState s2)))"

section \<open>Strings of the command facade\<close>

text \<open>\<^verbatim>\<open>String.prototype.trim\<close> removes the white space and line terminator code points
  of ECMAScript from both ends: U+0009 to U+000D, U+0020, U+00A0, U+1680, U+2000 to
  U+200A, U+2028, U+2029, U+202F, U+205F, U+3000 and U+FEFF, here in UTF-8.\<close>

definition js_whitespace :: "string list" where
  "js_whitespace =
     [[CHR 0x09], [CHR 0x0A], [CHR 0x0B], [CHR 0x0C], [CHR 0x0D], [CHR 0x20],
      [CHR 0xC2, CHR 0xA0], [CHR 0xE1, CHR 0x9A, CHR 0x80],
      [CHR 0xE2, CHR 0x80, CHR 0x80], [CHR 0xE2, CHR 0x80, CHR 0x81],
      [CHR 0xE2, CHR 0x80, CHR 0x82], [CHR 0xE2, CHR 0x80, CHR 0x83],
      [CHR 0xE2, CHR 0x80, CHR 0x84], [CHR 0xE2, CHR 0x80, CHR 0x85],
      [CHR 0xE2, CHR 0x80, CHR 0x86], [CHR 0xE2, CHR 0x80, CHR 0x87],
      [CHR 0xE2, CHR 0x80, CHR 0x88], [CHR 0xE2, CHR 0x80, CHR 0x89],
      [CHR 0xE2, CHR 0x80, CHR 0x8A], [CHR 0xE2, CHR 0x80, CHR 0xA8],
      [CHR 0xE2, CHR 0x80, CHR 0xA9], [CHR 0xE2, CHR 0x80, CHR 0xAF],
      [CHR 0xE2, CHR 0x81, CHR 0x9F], [CHR 0xE3, CHR 0x80, CHR 0x80],
      [CHR 0xEF, CHR 0xBB, CHR 0xBF]]"

text \<open>The length of the entry of the table that the string starts with, or 0.\<close>

definition lead_len :: "string list \<Rightarrow> string \<Rightarrow> nat" where
  "lead_len tbl s =
     (case find (\<lambda>w. w \<noteq> [] \<and> take (length w) s = w) tbl of
        None \<Rightarrow> 0
      | Some w \<Rightarrow> length w)"

function strip_lead :: "string list \<Rightarrow> string \<Rightarrow> string" where
  "strip_lead tbl s =
     (if lead_len tbl s = 0 then s else strip_lead tbl (drop (lead_len tbl s) s))"
  by pat_completeness auto
termination
proof (relation "measure (\<lambda>(tbl, s). length s)")
  show "wf (measure (\<lambda>(tbl, s). length s))" by simp
next
  fix tbl :: "string list" and s :: string
  assume a: "lead_len tbl s \<noteq> 0"
  have "s \<noteq> []"
  proof
    assume "s = []"
    then have "find (\<lambda>w. w \<noteq> [] \<and> take (length w) s = w) tbl = None"
      by (auto simp add: find_None_iff)
    with a show False by (simp add: lead_len_def)
  qed
  with a show "((tbl, drop (lead_len tbl s) s), (tbl, s)) \<in> measure (\<lambda>(tbl, s). length s)"
    by simp
qed

declare strip_lead.simps [simp del]

definition js_trim :: "string \<Rightarrow> string" where
  "js_trim s = rev (strip_lead (map rev js_whitespace) (rev (strip_lead js_whitespace s)))"

text \<open>\<^verbatim>\<open>csv.split(',')\<close>: the pieces between the commas, empty ones included.\<close>

fun js_split :: "string \<Rightarrow> string list" where
  "js_split [] = [[]]"
| "js_split (c # cs) =
     (if c = CHR '','' then [] # js_split cs
      else (case js_split cs of
              [] \<Rightarrow> [[c]]
            | p # ps \<Rightarrow> (c # p) # ps))"

text \<open>\<^verbatim>\<open>e.message || e\<close> in a template string.\<close>

fun message_or_self :: "jsval \<Rightarrow> string" where
  "message_or_self (Err n m) = (if m \<noteq> [] then m else js_String (Err n m))"
| "message_or_self (Str t) = t"

section \<open>Command facade\<close>

text \<open>The block arguments are strings (the blocks declare them so), hence
  \<^verbatim>\<open>String(args.id || '')\<close> is the argument itself.\<close>

definition btnConnect :: "state \<Rightarrow> ((jsval + unit) \<times> state) option" where
  "btnConnect s =
     (case requestAndConnect (stopReconnectTimer ((clearError s)\<lparr>wantReconnect := True\<rparr>)) of
        None \<Rightarrow> None
      | Some (Inr u, s1) \<Rightarrow> Some (Inr u, s1)
      | Some (Inl e, s1) \<Rightarrow> Some (Inl e, scheduleReconnect (setError e s1)))"

definition connectById :: "string \<Rightarrow> state \<Rightarrow> ((jsval + unit) \<times> state) option" where
  "connectById id_arg s =
     (let s0 = stopReconnectTimer ((clearError s)\<lparr>wantReconnect := True\<rparr>);
          i = js_trim id_arg
      in case (case findById i s0 of
                 None \<Rightarrow> requestAndConnect s0
               | Some dev \<Rightarrow>
                   reconnect (s0\<lparr>device := Some dev, deviceName := dev_name (heap s0 dev),
                                deviceId := dev_id (heap s0 dev)\<rparr>)) of
           None \<Rightarrow> None
         | Some (Inr u, s1) \<Rightarrow> Some (Inr u, s1)
         | Some (Inl e, s1) \<Rightarrow>
             (case requestAndConnect (setError e s1) of
                None \<Rightarrow> None
              | Some (Inr u, s2) \<Rightarrow> Some (Inr u, s2)
              | Some (Inl ee, s2) \<Rightarrow> Some (Inl ee, setError ee s2)))"

definition disconnect :: "state \<Rightarrow> state" where
  "disconnect s = disconnectInternal False (stopReconnectTimer (s\<lparr>wantReconnect := False\<rparr>))"

definition forgetCurrent :: "state \<Rightarrow> state" where
  "forgetCurrent s = disconnectInternal True (stopReconnectTimer (s\<lparr>wantReconnect := False\<rparr>))"

definition forgetById :: "string \<Rightarrow> state \<Rightarrow> state" where
  "forgetById id_arg s =
     (let i = js_trim id_arg
      in case device s of
           None \<Rightarrow> s\<lparr>known := (known s)(i := None)\<rparr>
         | Some d \<Rightarrow>
             if dev_id (heap s d) = i then forgetCurrent s
             else s\<lparr>known := (known s)(i := None)\<rparr>)"

definition forgetAll :: "state \<Rightarrow> state" where
  "forgetAll s =
     (disconnectInternal True (stopReconnectTimer (s\<lparr>wantReconnect := False\<rparr>)))
       \<lparr>known := Map.empty\<rparr>"

text \<open>\<^verbatim>\<open>setReconnect\<close>: the argument is the menu text; \<open>on\<close> says whether it is the "on"
  item.\<close>

definition setReconnect :: "bool \<Rightarrow> state \<Rightarrow> state" where
  "setReconnect on s =
     (let s1 = s\<lparr>wantReconnect := on\<rparr>;
          s2 = (if on \<and> \<not> connected s1 then scheduleReconnect s1 else s1)
      in if \<not> on then stopReconnectTimer s2 else s2)"

text \<open>\<^verbatim>\<open>setPoll\<close>: \<open>v\<close> is \<^verbatim>\<open>Math.max(0, Math.floor(Number(args.ms) || 0))\<close>.\<close>

definition setPoll :: "nat \<Rightarrow> state \<Rightarrow> state" where
  "setPoll v s =
     (let s1 = s\<lparr>pollIntervalMs := v\<rparr>
      in if connected s1 then startPolling s1 else s1)"

text \<open>The relay blocks and \<^verbatim>\<open>sendText\<close>: \<^verbatim>\<open>try { await sendAscii(..) } catch (e)
  { setError(e); throw e; }\<close>.\<close>

definition sendText :: "string \<Rightarrow> state \<Rightarrow> (jsval + unit) \<times> state" where
  "sendText txt s =
     (case sendAscii txt s of
        (Inl e, s1) \<Rightarrow> (Inl e, setError e s1)
      | (Inr u, s1) \<Rightarrow> (Inr u, s1))"

definition relayOn :: "state \<Rightarrow> (jsval + unit) \<times> state" where
  "relayOn s = sendText ''1'' s"

definition relayOff :: "state \<Rightarrow> (jsval + unit) \<times> state" where
  "relayOff s = sendText ''0'' s"

definition relayToggle :: "state \<Rightarrow> (jsval + unit) \<times> state" where
  "relayToggle s = sendText ''t'' s"

definition readStateCmd :: "state \<Rightarrow> (jsval + unit) \<times> state" where
  "readStateCmd s =
     (case readState s of
        (Inl e, s1) \<Rightarrow> (Inl e, setError e s1)
      | (Inr u, s1) \<Rightarrow> (Inr u, s1))"

definition clearQueue :: "state \<Rightarrow> state" where
  "clearQueue s = s\<lparr>sendQueue := []\<rparr>"


text \<open>The tick of the poll timer: \<^verbatim>\<open>readState().catch(setError)\<close>.\<close>

definition pollTimer_fire :: "state \<Rightarrow> state" where
  "pollTimer_fire s =
     (case readState s of
        (Inl e, s1) \<Rightarrow> setError e s1
      | (Inr _, s1) \<Rightarrow> s1)"

section \<open>Bulk dispatch\<close>

text \<open>The loop of \<^verbatim>\<open>bulkCsv\<close> over the ids: a failure of one id is caught and stored, and
  the loop goes on.\<close>

fun bulk_loop :: "string list \<Rightarrow> string \<Rightarrow> state \<Rightarrow> state option" where
  "bulk_loop [] act s = Some s"
| "bulk_loop (i # ids) act s =
     (case connectSendById i act s of
        None \<Rightarrow> None
      | Some (Inr _, s1) \<Rightarrow> bulk_loop ids act s1
      | Some (Inl e, s1) \<Rightarrow>
          bulk_loop ids act (setError (Str (''ID '' @ i @ '': '' @ message_or_self e)) s1))"

text \<open>\<^verbatim>\<open>toUpperCase\<close> follows the case tables of Unicode, which are no part of the
  program: it is a parameter. \<^verbatim>\<open>args.act || 'ON'\<close> replaces an empty action by ON.\<close>

definition bulkCsv :: "(string \<Rightarrow> string) \<Rightarrow> string \<Rightarrow> string \<Rightarrow> state \<Rightarrow> state option" where
  "bulkCsv toUpperCase csv_arg act_arg s =
     (let s0 = clearError s;
          csv = js_trim csv_arg;
          act = toUpperCase (if act_arg = [] then ''ON'' else act_arg)
      in if csv = [] then Some s0
         else bulk_loop (filter (\<lambda>i. i \<noteq> []) (map js_trim (js_split csv))) act s0)"

text \<open>Upper case on ASCII letters, where \<^verbatim>\<open>toUpperCase\<close> is just that.\<close>

definition ascii_upper :: "string \<Rightarrow> string" where
  "ascii_upper =
     map (\<lambda>c. if (97::nat) \<le> of_char c \<and> of_char c \<le> (122::nat)
              then char_of (of_char c - (32::nat)) else c)"

text \<open>The state the module starts in, for a given world of device objects and a given
  environment.\<close>

definition initial :: "(handle \<Rightarrow> bt_device) \<Rightarrow> (nat \<Rightarrow> jsval option) \<Rightarrow> (nat \<Rightarrow> jsval + handle) \<Rightarrow> state" where
  "initial devs io scan =
     \<lparr>heap = devs, device = None, server = None, rxChar = None, txChar = None,
      connected = False, connecting = False, wantReconnect = False,
      deviceName = [], deviceId = [], known = Map.empty,
      lastStateText = [], lastStateNum = 0, prevStateNum = 0, lastError = [],
      edgeOn = False, edgeOff = False, edgeConnected = False, edgeDisconnected = False,
      prevConnected = False, backoffMs = 1000, reconnectTimer = None,
      pollIntervalMs = 0, pollTimer = None, sendQueue = [], trace = [],
      io_result = io, scan_result = scan\<rparr>"

section \<open>Events and reachable states\<close>

definition whenConnected :: "state \<Rightarrow> bool \<times> state" where
  "whenConnected s =
     (if edgeConnected s then (True, s\<lparr>edgeConnected := False\<rparr>) else (False, s))"

definition whenDisconnected :: "state \<Rightarrow> bool \<times> state" where
  "whenDisconnected s =
     (if edgeDisconnected s then (True, s\<lparr>edgeDisconnected := False\<rparr>) else (False, s))"

text \<open>The listeners. A notification arrives as bytes, is decoded and trimmed. The
  transport clears \<^verbatim>\<open>gatt.connected\<close> of a device whose link ends and then dispatches
  \<^verbatim>\<open>gattserverdisconnected\<close>; the handler does not look at which device it was.\<close>

definition characteristicvaluechanged :: "string \<Rightarrow> state \<Rightarrow> state" where
  "characteristicvaluechanged raw s = updateStateFromText (js_trim raw) s"

definition gattserverdisconnected :: "handle \<Rightarrow> state \<Rightarrow> state" where
  "gattserverdisconnected h s =
     handleDisconnected (s\<lparr>heap := (heap s)(h := (heap s h)\<lparr>gatt_connected := False\<rparr>)\<rparr>)"

definition visibilitychange :: "bool \<Rightarrow> state \<Rightarrow> state" where
  "visibilitychange hidden s = (if hidden then stopPolling s else startPolling s)"

definition beforeunload :: "state \<Rightarrow> state" where
  "beforeunload s =
     (let s1 = stopPolling (stopReconnectTimer (s\<lparr>wantReconnect := False\<rparr>))
      in case device s1 of
           None \<Rightarrow> s1
         | Some d \<Rightarrow>
             if gatt_connected (heap s1 d)
             then s1\<lparr>heap := (heap s1)(d := (heap s1 d)\<lparr>gatt_connected := False\<rparr>),
                     trace := trace s1 @ [GattDisconnect d]\<rparr>
             else s1)"

text \<open>The serial runs: the module starts in \<open>initial\<close>, and each block that is run, each
  event that is delivered and each timer that fires runs to its end before the next one
  starts. These are runs of the program, so a state that is \<open>reachable\<close> is one the program
  gets into. They are not all of its runs: an async function gives way at each of its
  awaits, and another block, listener or timer may run there. Section \<open>Operations that
  overlap\<close> follows such runs.\<close>

inductive reachable :: "state \<Rightarrow> bool" where
  r_initial: "reachable (initial devs io scan)"
| r_whenOn: "reachable s \<Longrightarrow> reachable (snd (whenOn s))"
| r_whenOff: "reachable s \<Longrightarrow> reachable (snd (whenOff s))"
| r_whenConnected: "reachable s \<Longrightarrow> reachable (snd (whenConnected s))"
| r_whenDisconnected: "reachable s \<Longrightarrow> reachable (snd (whenDisconnected s))"
| r_btnConnect: "reachable s \<Longrightarrow> btnConnect s = Some (r, s') \<Longrightarrow> reachable s'"
| r_connectById: "reachable s \<Longrightarrow> connectById i s = Some (r, s') \<Longrightarrow> reachable s'"
| r_disconnect: "reachable s \<Longrightarrow> reachable (disconnect s)"
| r_forgetCurrent: "reachable s \<Longrightarrow> reachable (forgetCurrent s)"
| r_forgetById: "reachable s \<Longrightarrow> reachable (forgetById i s)"
| r_forgetAll: "reachable s \<Longrightarrow> reachable (forgetAll s)"
| r_setReconnect: "reachable s \<Longrightarrow> reachable (setReconnect on s)"
| r_setPoll: "reachable s \<Longrightarrow> reachable (setPoll v s)"
| r_relayOn: "reachable s \<Longrightarrow> reachable (snd (relayOn s))"
| r_relayOff: "reachable s \<Longrightarrow> reachable (snd (relayOff s))"
| r_relayToggle: "reachable s \<Longrightarrow> reachable (snd (relayToggle s))"
| r_readStateCmd: "reachable s \<Longrightarrow> reachable (snd (readStateCmd s))"
| r_sendText: "reachable s \<Longrightarrow> reachable (snd (sendText txt s))"
| r_clearQueue: "reachable s \<Longrightarrow> reachable (clearQueue s)"
| r_bulkCsv: "reachable s \<Longrightarrow> bulkCsv up csv act s = Some s' \<Longrightarrow> reachable s'"
| r_notification: "reachable s \<Longrightarrow> reachable (characteristicvaluechanged raw s)"
| r_link_lost: "reachable s \<Longrightarrow> reachable (gattserverdisconnected h s)"
| r_reconnectTimer:
    "reachable s \<Longrightarrow> reconnectTimer s \<noteq> None \<Longrightarrow> reconnectTimer_fire s = Some s' \<Longrightarrow>
     reachable s'"
| r_pollTimer: "reachable s \<Longrightarrow> pollTimer s \<noteq> None \<Longrightarrow> reachable (pollTimer_fire s)"
| r_visibilitychange: "reachable s \<Longrightarrow> reachable (visibilitychange hidden s)"
| r_beforeunload: "reachable s \<Longrightarrow> reachable (beforeunload s)"

text \<open>What holds in every state of a serial run: a connected link has its write channel,
  the queue is within its capacity, and the backoff is between its floor and its ceiling.
  (The first of the three needs the run to be serial; the other two are kept by every
  assignment to the queue and to the backoff.)\<close>

definition link_inv :: "state \<Rightarrow> bool" where
  "link_inv s \<longleftrightarrow>
     (connected s \<longrightarrow> rxChar s \<noteq> None)
     \<and> length (sendQueue s) \<le> QUEUE_MAX
     \<and> 1000 \<le> backoffMs s \<and> backoffMs s \<le> backoffMax"

section \<open>Operations that overlap\<close>

text \<open>
  \<^verbatim>\<open>reconnect\<close>, called from the callback of the reconnect timer, is followed here await
  by await. A call that got past both guards is suspended five times before it reaches
  \<^verbatim>\<open>onConnected\<close>: at \<^verbatim>\<open>device.gatt.connect()\<close> and at the four transport calls of
  \<^verbatim>\<open>setupGatt\<close>. An \<open>await_point\<close> names the call it waits for; with it go the device the
  call was made on and the position of the call in the trace, which fixes its outcome.
\<close>

datatype await_point =
  AwaitConnect | AwaitService | AwaitRxChar | AwaitTxChar | AwaitNotifications

datatype step = Suspended await_point handle nat | Returned "jsval + unit"

type_synonym pending = "await_point \<times> handle \<times> nat"

text \<open>\<open>reconnect_resume\<close> is the piece of \<^verbatim>\<open>reconnect\<close> that runs when the awaited call
  settles, up to the next await or to the end. It reads the module variables as they are
  at that moment. A rejection leaves through the \<^verbatim>\<open>finally\<close>. The service object is a
  local constant of \<^verbatim>\<open>setupGatt\<close>, so the two characteristics are asked of the device the
  call began with; \<^verbatim>\<open>txChar.addEventListener\<close> reads the variable, and is a TypeError when
  it is null (the message is V8's). From \<^verbatim>\<open>onConnected\<close> on the call is taken in one
  piece.\<close>

fun reconnect_resume :: "await_point \<Rightarrow> handle \<Rightarrow> nat \<Rightarrow> state \<Rightarrow> (step \<times> state) option" where
  "reconnect_resume AwaitConnect d n s =
     (case io_result s n of
        Some e \<Rightarrow> Some (Returned (Inl e), s\<lparr>connecting := False\<rparr>)
      | None \<Rightarrow>
          Some (Suspended AwaitService d (length (trace s)),
                s\<lparr>heap := (heap s)(d := (heap s d)\<lparr>gatt_connected := True\<rparr>),
                  server := Some d,
                  trace := trace s @ [GetPrimaryService d NUS_SERVICE]\<rparr>))"
| "reconnect_resume AwaitService d n s =
     (case io_result s n of
        Some e \<Rightarrow> Some (Returned (Inl e), s\<lparr>connecting := False\<rparr>)
      | None \<Rightarrow>
          Some (Suspended AwaitRxChar d (length (trace s)),
                s\<lparr>trace := trace s @ [GetCharacteristic d NUS_RX_CHAR]\<rparr>))"
| "reconnect_resume AwaitRxChar d n s =
     (case io_result s n of
        Some e \<Rightarrow> Some (Returned (Inl e), s\<lparr>connecting := False\<rparr>)
      | None \<Rightarrow>
          Some (Suspended AwaitTxChar d (length (trace s)),
                s\<lparr>rxChar := Some d,
                  trace := trace s @ [GetCharacteristic d NUS_TX_CHAR]\<rparr>))"
| "reconnect_resume AwaitTxChar d n s =
     (case io_result s n of
        Some e \<Rightarrow> Some (Returned (Inl e), s\<lparr>connecting := False\<rparr>)
      | None \<Rightarrow>
          Some (Suspended AwaitNotifications d (length (trace s)),
                s\<lparr>txChar := Some d, trace := trace s @ [StartNotifications d]\<rparr>))"
| "reconnect_resume AwaitNotifications d n s =
     (case io_result s n of
        Some e \<Rightarrow> Some (Returned (Inl e), s\<lparr>connecting := False\<rparr>)
      | None \<Rightarrow>
          (case txChar s of
             None \<Rightarrow>
               Some (Returned (Inl (Err ''TypeError''
                       ''Cannot read properties of null (reading 'addEventListener')'')),
                     s\<lparr>connecting := False\<rparr>)
           | Some t \<Rightarrow>
               (case onConnected s of
                  None \<Rightarrow> None
                | Some s' \<Rightarrow> Some (Returned (Inr ()), s'\<lparr>connecting := False\<rparr>))))"

text \<open>What the timer's callback does once its \<^verbatim>\<open>reconnect\<close> has returned or thrown.\<close>

definition reconnectTimer_settled :: "jsval + unit \<Rightarrow> state \<Rightarrow> state" where
  "reconnectTimer_settled r s =
     (case r of
        Inr u \<Rightarrow> s
      | Inl e \<Rightarrow>
          (let s2 = setError e s
           in scheduleReconnect (s2\<lparr>backoffMs := min (backoffMs s2 * 2) backoffMax\<rparr>)))"

text \<open>
  The events of a run with at most one such call in flight: the reconnect timer fires
  (when it is armed and nothing is in flight), the awaited call settles, and, at any
  moment, the blocks \<^verbatim>\<open>connectById\<close> and \<^verbatim>\<open>disconnect\<close> run to their end. A call on the
  GATT server of a device settles here only while the link of that device is up: what the
  transport does with a call whose link has gone is left out. \<open>occurs\<close> is \<open>None\<close> for an
  event that cannot happen in the configuration, or does not return.
\<close>

datatype event = Timer_fires | Call_settles | Block_connectById string | Block_disconnect

fun occurs :: "event \<Rightarrow> pending option \<Rightarrow> state \<Rightarrow> (pending option \<times> state) option" where
  "occurs Timer_fires None s =
     (if reconnectTimer s = None then None
      else (let s0 = s\<lparr>reconnectTimer := None\<rparr>
            in case device s0 of
                 None \<Rightarrow>
                   Some (None, reconnectTimer_settled (Inl (Err ''Error'' msg_no_device)) s0)
               | Some d \<Rightarrow>
                   if connecting s0 \<or> gatt_connected (heap s0 d) then Some (None, s0)
                   else Some (Some (AwaitConnect, d, length (trace s0)),
                              reconnect_pending d s0)))"
| "occurs Timer_fires (Some p) s = None"
| "occurs Call_settles None s = None"
| "occurs Call_settles (Some (a, d, n)) s =
     (if a \<noteq> AwaitConnect \<and> \<not> gatt_connected (heap s d) then None
      else case reconnect_resume a d n s of
             None \<Rightarrow> None
           | Some (Suspended a' d' n', s') \<Rightarrow> Some (Some (a', d', n'), s')
           | Some (Returned r, s') \<Rightarrow> Some (None, reconnectTimer_settled r s'))"
| "occurs (Block_connectById i) p s =
     (case connectById i s of None \<Rightarrow> None | Some (r, s') \<Rightarrow> Some (p, s'))"
| "occurs Block_disconnect p s = Some (p, disconnect s)"

fun schedule :: "event list \<Rightarrow> pending option \<Rightarrow> state \<Rightarrow> (pending option \<times> state) option" where
  "schedule [] p s = Some (p, s)"
| "schedule (ev # evs) p s =
     (case occurs ev p s of None \<Rightarrow> None | Some (p', s') \<Rightarrow> schedule evs p' s')"

text \<open>The configurations of such runs: those of the serial runs, with nothing in flight,
  and what an event makes of a configuration.\<close>

inductive overlapped :: "pending option \<Rightarrow> state \<Rightarrow> bool" where
  o_serial: "reachable s \<Longrightarrow> overlapped None s"
| o_event: "overlapped p s \<Longrightarrow> occurs ev p s = Some (p', s') \<Longrightarrow> overlapped p' s'"

section \<open>Runs and example states\<close>

text \<open>A caller that sends one token after the other, whatever each call returned.\<close>

definition send_all :: "string list \<Rightarrow> state \<Rightarrow> state" where
  "send_all ts s = foldl (\<lambda>t tok. snd (sendAscii tok t)) s ts"

text \<open>A world with two relays, at the addresses 1 and 2, with the ids a and c. The
  chooser returns the first relay when it is asked first and the second one later.
  \<open>fresh io\<close> is the module's initial state in that world, with \<open>io\<close> deciding the
  transport calls; in \<open>idle\<close> every call succeeds.\<close>

definition two_relays :: "handle \<Rightarrow> bt_device" where
  "two_relays h =
     (if h = 1 then \<lparr>dev_id = ''a'', dev_name = ''BT Relay A'', gatt_connected = False\<rparr>
      else if h = 2 then \<lparr>dev_id = ''c'', dev_name = ''BT Relay C'', gatt_connected = False\<rparr>
      else \<lparr>dev_id = [], dev_name = [], gatt_connected = False\<rparr>)"

definition scan_a_then_c :: "nat \<Rightarrow> jsval + handle" where
  "scan_a_then_c n = (if n = 0 then Inr 1 else Inr 2)"

definition fresh :: "(nat \<Rightarrow> jsval option) \<Rightarrow> state" where
  "fresh io = initial two_relays io scan_a_then_c"

definition idle :: state where
  "idle = fresh (\<lambda>n. None)"

text \<open>The state after the connect button was pressed in \<open>fresh io\<close> and the first relay
  was chosen, connected and set up.\<close>

definition scanned_a :: "(nat \<Rightarrow> jsval option) \<Rightarrow> state" where
  "scanned_a io =
     (fresh io)
       \<lparr>heap := two_relays(1 := (two_relays 1)\<lparr>gatt_connected := True\<rparr>),
        device := Some 1, server := Some 1, rxChar := Some 1, txChar := Some 1,
        connected := True, wantReconnect := True,
        deviceName := ''BT Relay A'', deviceId := ''a'',
        known := [''a'' \<mapsto> \<lparr>entry_id = ''a'', entry_name = ''BT Relay A'',
                            entry_device = 1\<rparr>],
        edgeConnected := True, prevConnected := True,
        trace := [RequestDevice NamePrefixFilters, GattConnect 1,
                  GetPrimaryService 1 NUS_SERVICE, GetCharacteristic 1 NUS_RX_CHAR,
                  GetCharacteristic 1 NUS_TX_CHAR, StartNotifications 1]\<rparr>"

definition linked :: state where
  "linked = scanned_a (\<lambda>n. None)"

text \<open>The button pressed once more, the second relay chosen: both relays are connected,
  the second one is the active device.\<close>

definition scanned_ac :: state where
  "scanned_ac =
     linked
       \<lparr>heap := two_relays(1 := (two_relays 1)\<lparr>gatt_connected := True\<rparr>,
                           2 := (two_relays 2)\<lparr>gatt_connected := True\<rparr>),
        device := Some 2, server := Some 2, rxChar := Some 2, txChar := Some 2,
        deviceName := ''BT Relay C'', deviceId := ''c'',
        known := [''a'' \<mapsto> \<lparr>entry_id = ''a'', entry_name = ''BT Relay A'',
                            entry_device = 1\<rparr>,
                  ''c'' \<mapsto> \<lparr>entry_id = ''c'', entry_name = ''BT Relay C'',
                            entry_device = 2\<rparr>],
        trace := trace linked @
                 [RequestDevice NamePrefixFilters, GattConnect 2,
                  GetPrimaryService 2 NUS_SERVICE, GetCharacteristic 2 NUS_RX_CHAR,
                  GetCharacteristic 2 NUS_TX_CHAR, StartNotifications 2]\<rparr>"

text \<open>Then the disconnect block is run and the link to the first relay ends: both relays
  are remembered, neither is connected.\<close>

definition both_known :: state where
  "both_known = gattserverdisconnected 1 (disconnect scanned_ac)"



text \<open>Automatic reconnection switched on in the initial state: the timer is armed, and
  there is no device to reconnect to.\<close>

definition armed :: state where
  "armed = setReconnect True idle"

text \<open>Twenty-one tokens: the letters A to U.\<close>

definition letters :: "string list" where
  "letters = map (\<lambda>n. [char_of (n + 65)]) [0..<21]"


text \<open>\<open>n\<close> firings of the reconnect timer in a row, each with a failing \<open>reconnect\<close>;
  \<open>None\<close> when one of the attempts does not fail.\<close>

fun failed_attempts :: "nat \<Rightarrow> state \<Rightarrow> state option" where
  "failed_attempts 0 s = Some s"
| "failed_attempts (Suc n) s =
     (case reconnect (s\<lparr>reconnectTimer := None\<rparr>) of
        Some (Inl e, u) \<Rightarrow>
          (case reconnectTimer_fire s of
             None \<Rightarrow> None
           | Some s' \<Rightarrow> failed_attempts n s')
      | _ \<Rightarrow> None)"

text \<open>The number of \<^verbatim>\<open>gatt.connect()\<close> calls in a trace.\<close>

fun is_GattConnect :: "call \<Rightarrow> bool" where
  "is_GattConnect (GattConnect h) = True"
| "is_GattConnect c = False"

definition connect_calls :: "call list \<Rightarrow> nat" where
  "connect_calls tr = length (filter is_GattConnect tr)"

text \<open>The spec's scenario: three "1" queued while disconnected, then the link is set
  up.\<close>

definition three_queued :: state where
  "three_queued =
     idle\<lparr>device := Some 1, server := Some 1, rxChar := Some 1, txChar := Some 1,
          wantReconnect := True, sendQueue := [''1'', ''1'', ''1'']\<rparr>"

text \<open>The first relay connected with the button, and its link ended since.\<close>

definition dropped :: state where
  "dropped = gattserverdisconnected 1 linked"

text \<open>The initial state in a world whose chooser is cancelled twice before it returns the
  first relay; and \<open>both_known\<close> with an environment that rejects the next call.\<close>

definition cancelled_twice :: state where
  "cancelled_twice =
     initial two_relays (\<lambda>n. None)
       (\<lambda>n. if n < 2 then Inl (Err ''NotFoundError'' ''User cancelled the chooser'')
            else Inr 1)"

definition connect_13_fails :: state where
  "connect_13_fails =
     both_known\<lparr>io_result := (\<lambda>n. if n = 13 then Some (Err ''NetworkError'' ''out of range'')
                                 else None)\<rparr>"

text \<open>Both relays connected, the second one active, and the links of both end, the first
  relay's first: the reconnect timer is armed. Then the timer fires and its \<^verbatim>\<open>reconnect\<close>
  to the second relay gets as far as the await of the TX characteristic;
  \<^verbatim>\<open>connectById("a")\<close> makes the first relay the active device and returns, since a
  reconnect is in progress; \<^verbatim>\<open>disconnect()\<close> clears the GATT variables (the first relay has
  no link to close); and the suspended call runs to its end. \<open>astray\<close> is the state this
  leaves.\<close>

definition links_lost :: state where
  "links_lost = gattserverdisconnected 2 (gattserverdisconnected 1 scanned_ac)"

definition race :: "event list" where
  "race = [Timer_fires, Call_settles, Call_settles, Call_settles,
           Block_connectById ''a'', Block_disconnect, Call_settles, Call_settles]"

definition astray :: state where
  "astray =
     links_lost
       \<lparr>heap := two_relays(1 := (two_relays 1)\<lparr>gatt_connected := False\<rparr>,
                           2 := (two_relays 2)\<lparr>gatt_connected := True\<rparr>),
        device := Some 1, server := None, rxChar := None, txChar := Some 2,
        connected := True, wantReconnect := False,
        deviceName := ''BT Relay A'', deviceId := ''a'',
        edgeConnected := True, prevConnected := True, reconnectTimer := None,
        trace := trace links_lost @
                 [GattConnect 2, GetPrimaryService 2 NUS_SERVICE,
                  GetCharacteristic 2 NUS_RX_CHAR, GetCharacteristic 2 NUS_TX_CHAR,
                  StartNotifications 2]\<rparr>"

section \<open>Helper lemmas\<close>

subsection \<open>Fields that stay as they are\<close>

lemma lastError_setError [simp]: "lastError (setError e s) = message_or_self e"
  by (cases e) simp_all

lemma setError_fields [simp]:
  "sendQueue (setError e s) = sendQueue s"
  "trace (setError e s) = trace s"
  "backoffMs (setError e s) = backoffMs s"
  "connected (setError e s) = connected s"
  "rxChar (setError e s) = rxChar s"
  "io_result (setError e s) = io_result s"
  "wantReconnect (setError e s) = wantReconnect s"
  "reconnectTimer (setError e s) = reconnectTimer s"
  "heap (setError e s) = heap s"
  "device (setError e s) = device s"
  "connecting (setError e s) = connecting s"
  "known (setError e s) = known s"
  by (cases e; simp)+

subsection \<open>The result of the drain loop\<close>

text \<open>With the link connected and the write channel \<open>h\<close> set, the loop writes the queue
  to \<open>h\<close> until the queue is empty or a write is rejected.\<close>

lemma sendAscii_write:
  assumes "connected s" "rxChar s = Some h"
  shows "sendAscii tok s =
     ((case io_result s (length (trace s)) of None \<Rightarrow> Inr () | Some e \<Rightarrow> Inl e),
      s\<lparr>trace := trace s @ [WriteValue h tok]\<rparr>)"
  using assms by (simp add: sendAscii_def writeValue_def transport_def split: option.splits)



lemma onConnected_flags_fields [simp]:
  "connected (onConnected_flags s)"
  "\<not> connecting (onConnected_flags s)"
  "backoffMs (onConnected_flags s) = 1000"
  "lastError (onConnected_flags s) = []"
  "rxChar (onConnected_flags s) = rxChar s"
  "sendQueue (onConnected_flags s) = sendQueue s"
  "trace (onConnected_flags s) = trace s"
  "io_result (onConnected_flags s) = io_result s"
  "heap (onConnected_flags s) = heap s"
  "device (onConnected_flags s) = device s"
  "known (onConnected_flags s) = known s"
  "wantReconnect (onConnected_flags s) = wantReconnect s"
  "reconnectTimer (onConnected_flags s) = reconnectTimer s"
  by (simp_all add: onConnected_flags_def Let_def clearError_def startPolling_def stopPolling_def)

subsection \<open>State tracker and queue\<close>

lemma updateStateFromText_num:
  "lastStateNum (updateStateFromText v s) =
     (if v = ''on'' \<or> v = ''1'' then 1
      else if v = ''off'' \<or> v = ''0'' then 0 else lastStateNum s)"
  by (simp add: updateStateFromText_def Let_def)

lemma updateStateFromText_frame:
  "updateStateFromText v s =
     s\<lparr>lastStateText := v,
       lastStateNum := lastStateNum (updateStateFromText v s),
       edgeOn := edgeOn (updateStateFromText v s),
       edgeOff := edgeOff (updateStateFromText v s),
       prevStateNum := lastStateNum (updateStateFromText v s)\<rparr>"
  by (simp add: updateStateFromText_def Let_def)

lemma updateStateFromText_edgeOn:
  "edgeOn (updateStateFromText v s) =
     (edgeOn s \<or> (lastStateNum s = 0 \<and> lastStateNum (updateStateFromText v s) = 1))"
  by (auto simp add: updateStateFromText_def Let_def)

lemma updateStateFromText_edgeOff:
  "edgeOff (updateStateFromText v s) =
     (edgeOff s \<or> (lastStateNum s = 1 \<and> lastStateNum (updateStateFromText v s) = 0))"
  by (auto simp add: updateStateFromText_def Let_def)

lemma sendAscii_queue:
  assumes "\<not> connected s \<or> rxChar s = None" "wantReconnect s"
  shows "sendAscii tok s =
           (Inr (), scheduleReconnect
              (s\<lparr>sendQueue := (if QUEUE_MAX \<le> length (sendQueue s)
                                then tl (sendQueue s) else sendQueue s) @ [tok]\<rparr>))"
  using assms by (auto simp add: sendAscii_def Let_def)

lemma scheduleReconnect_fields [simp]:
  "sendQueue (scheduleReconnect s) = sendQueue s"
  "trace (scheduleReconnect s) = trace s"
  "connected (scheduleReconnect s) = connected s"
  "rxChar (scheduleReconnect s) = rxChar s"
  "wantReconnect (scheduleReconnect s) = wantReconnect s"
  "backoffMs (scheduleReconnect s) = backoffMs s"
  "lastError (scheduleReconnect s) = lastError s"
  "io_result (scheduleReconnect s) = io_result s"
  "heap (scheduleReconnect s) = heap s"
  "device (scheduleReconnect s) = device s"
  "connecting (scheduleReconnect s) = connecting s"
  "known (scheduleReconnect s) = known s"
  by (simp_all add: scheduleReconnect_def)

lemma send_all_queue:
  assumes "\<not> connected s" "wantReconnect s" "length (sendQueue s) \<le> QUEUE_MAX"
  shows "sendQueue (send_all ts s) =
           drop (length (sendQueue s @ ts) - QUEUE_MAX) (sendQueue s @ ts)
         \<and> \<not> connected (send_all ts s) \<and> wantReconnect (send_all ts s)
         \<and> trace (send_all ts s) = trace s"
  using assms
proof (induction ts arbitrary: s)
  case Nil
  then show ?case by (simp add: send_all_def)
next
  case (Cons t ts)
  let ?s1 = "snd (sendAscii t s)"
  have q1: "sendQueue ?s1 =
      (if QUEUE_MAX \<le> length (sendQueue s) then tl (sendQueue s) else sendQueue s) @ [t]"
    using Cons.prems by (simp add: sendAscii_queue)
  have pre: "\<not> connected ?s1" "wantReconnect ?s1"
    using Cons.prems by (simp_all add: sendAscii_queue)
  have tr: "trace ?s1 = trace s"
    using Cons.prems by (simp add: sendAscii_queue)
  have len: "length (sendQueue ?s1) \<le> QUEUE_MAX"
    using Cons.prems(3) by (auto simp add: q1 QUEUE_MAX_def)
  have unfold: "send_all (t # ts) s = send_all ts ?s1"
    by (simp add: send_all_def)
  have "drop (length (sendQueue ?s1 @ ts) - QUEUE_MAX) (sendQueue ?s1 @ ts) =
        drop (length (sendQueue s @ t # ts) - QUEUE_MAX) (sendQueue s @ t # ts)"
  proof (cases "QUEUE_MAX \<le> length (sendQueue s)")
    case True
    with Cons.prems(3) have l: "length (sendQueue s) = QUEUE_MAX" by simp
    then obtain x q where xq: "sendQueue s = x # q"
      by (cases "sendQueue s") (auto simp: QUEUE_MAX_def)
    from l xq show ?thesis by (simp add: q1 Suc_diff_le)
  next
    case False
    then show ?thesis by (simp add: q1)
  qed
  with Cons.IH [OF pre len] tr show ?case by (simp add: unfold)
qed

subsection \<open>Frames of the connection functions\<close>

text \<open>What \<open>setupGatt\<close>, \<open>sendAscii\<close>, the drain loop and the settled connect change, and
  what they leave as it was.\<close>

lemma setupGatt_cases:
  assumes "setupGatt s = (r, s')"
  shows "connected s' = connected s \<and> sendQueue s' = sendQueue s \<and> heap s' = heap s
       \<and> device s' = device s \<and> known s' = known s \<and> backoffMs s' = backoffMs s
       \<and> connecting s' = connecting s \<and> io_result s' = io_result s
       \<and> wantReconnect s' = wantReconnect s \<and> lastError s' = lastError s
       \<and> server s' = server s
       \<and> (rxChar s' = rxChar s \<or> (rxChar s' = server s \<and> server s \<noteq> None))
       \<and> (\<forall>u. r = Inr u \<longrightarrow> rxChar s' = server s \<and> server s \<noteq> None)
       \<and> connect_calls (trace s') = connect_calls (trace s)"
  using assms
  by (auto simp add: setupGatt_def transport_def connect_calls_def
      split: option.splits sum.splits prod.splits)

lemma sendAscii_frame:
  assumes "sendAscii tok s = (r, s')"
  shows "connected s' = connected s \<and> rxChar s' = rxChar s \<and> heap s' = heap s
       \<and> device s' = device s \<and> known s' = known s \<and> backoffMs s' = backoffMs s
       \<and> connecting s' = connecting s \<and> io_result s' = io_result s
       \<and> wantReconnect s' = wantReconnect s
       \<and> connect_calls (trace s') = connect_calls (trace s)"
proof (cases "\<not> connected s \<or> rxChar s = None")
  case True
  with assms show ?thesis
    by (cases "wantReconnect s") (auto simp add: sendAscii_def Let_def split: if_splits)
next
  case False
  then obtain h where "connected s" "rxChar s = Some h" by auto
  with assms show ?thesis
    by (auto simp add: sendAscii_write connect_calls_def)
qed

lemma sendAscii_bound:
  assumes "length (sendQueue s) \<le> QUEUE_MAX"
  shows "length (sendQueue (snd (sendAscii tok s))) \<le> QUEUE_MAX"
  using assms
  by (auto simp add: sendAscii_def Let_def writeValue_def transport_def QUEUE_MAX_def
      split: option.splits)

lemma drainQueue_frame:
  assumes "drainQueue s = Some s'"
  shows "connected s' = connected s \<and> rxChar s' = rxChar s \<and> heap s' = heap s
       \<and> device s' = device s \<and> known s' = known s \<and> backoffMs s' = backoffMs s
       \<and> connecting s' = connecting s \<and> io_result s' = io_result s
       \<and> wantReconnect s' = wantReconnect s
       \<and> connect_calls (trace s') = connect_calls (trace s)"
  using assms
proof (induct rule: drainQueue.raw_induct [rotated 1, consumes 1, case_names 1])
  case (1 dq s s')
  show ?case
  proof (cases "sendQueue s")
    case Nil
    with 1(2) show ?thesis by simp
  next
    case (Cons x q)
    show ?thesis
    proof (cases "connected s")
      case False
      with 1(2) Cons show ?thesis by simp
    next
      case True
      obtain r s1 where sa: "sendAscii x (s\<lparr>sendQueue := q\<rparr>) = (r, s1)" by force
      note f = sendAscii_frame [OF sa]
      show ?thesis
      proof (cases r)
        case (Inl e)
        with 1(2) Cons True sa have "s' = setError e s1" by simp
        with f show ?thesis by simp
      next
        case (Inr u)
        with 1(2) Cons True sa have "dq s1 = Some s'" by simp
        from 1(1) [OF this] f show ?thesis by simp
      qed
    qed
  qed
qed

lemma drainQueue_bound_imp:
  assumes "drainQueue s = Some s'"
  shows "length (sendQueue s) \<le> QUEUE_MAX \<longrightarrow> length (sendQueue s') \<le> QUEUE_MAX"
  using assms
proof (induct rule: drainQueue.raw_induct [rotated 1, consumes 1, case_names 1])
  case (1 dq s s')
  show ?case
  proof (cases "sendQueue s")
    case Nil
    with 1(2) show ?thesis by simp
  next
    case (Cons x q)
    show ?thesis
    proof (cases "connected s")
      case False
      with 1(2) Cons show ?thesis by simp
    next
      case True
      obtain r s1 where sa: "sendAscii x (s\<lparr>sendQueue := q\<rparr>) = (r, s1)" by force
      show ?thesis
      proof
        assume "length (sendQueue s) \<le> QUEUE_MAX"
        with Cons have "length (sendQueue (s\<lparr>sendQueue := q\<rparr>)) \<le> QUEUE_MAX" by simp
        from sendAscii_bound [OF this, of x] sa have b: "length (sendQueue s1) \<le> QUEUE_MAX"
          by simp
        show "length (sendQueue s') \<le> QUEUE_MAX"
        proof (cases r)
          case (Inl e)
          with 1(2) Cons True sa have "s' = setError e s1" by simp
          with b show ?thesis by simp
        next
          case (Inr u)
          with 1(2) Cons True sa have "dq s1 = Some s'" by simp
          from 1(1) [OF this] b show ?thesis by simp
        qed
      qed
    qed
  qed
qed

lemma drainQueue_bound:
  assumes "drainQueue s = Some s'" "length (sendQueue s) \<le> QUEUE_MAX"
  shows "length (sendQueue s') \<le> QUEUE_MAX"
  using drainQueue_bound_imp [OF assms(1)] assms(2) by simp

lemma drainQueue_total:
  assumes "rxChar s \<noteq> None"
  shows "\<exists>s'. drainQueue s = Some s'"
  using assms
proof (induction "sendQueue s" arbitrary: s)
  case Nil
  then show ?case by (subst drainQueue.simps) simp
next
  case (Cons x q)
  show ?case
  proof (cases "connected s")
    case False
    then show ?thesis by (subst drainQueue.simps) (simp split: list.splits)
  next
    case True
    from Cons.prems obtain h where h: "rxChar s = Some h" by auto
    let ?s1 = "s\<lparr>sendQueue := q, trace := trace s @ [WriteValue h x]\<rparr>"
    have "\<exists>s'. drainQueue ?s1 = Some s'"
      using Cons.hyps(1) [of ?s1] h by simp
    then show ?thesis
      using True h Cons.hyps(2) [symmetric]
      by (subst drainQueue.simps) (auto simp add: sendAscii_write split: option.splits)
  qed
qed

text \<open>With the link marked connected, no write channel and \<^verbatim>\<open>wantReconnect\<close> set, the loop
  never ends: every token it takes out is queued again.\<close>

lemma drainQueue_spins:
  assumes "connected s" "rxChar s = None" "wantReconnect s" "sendQueue s \<noteq> []"
  shows "drainQueue s = None"
proof -
  have n: "\<not> (connected s \<and> rxChar s = None \<and> wantReconnect s \<and> sendQueue s \<noteq> [])"
    if "drainQueue s = Some y" for s y
    using that
  proof (induct rule: drainQueue.raw_induct [rotated 1, consumes 1, case_names 1])
    case (1 dq s y)
    show ?case
    proof
      assume c: "connected s \<and> rxChar s = None \<and> wantReconnect s \<and> sendQueue s \<noteq> []"
      then obtain x q where xq: "sendQueue s = x # q" by (cases "sendQueue s") auto
      let ?s1 = "scheduleReconnect
          (s\<lparr>sendQueue := (if QUEUE_MAX \<le> length q then tl q else q) @ [x]\<rparr>)"
      from c have "sendAscii x (s\<lparr>sendQueue := q\<rparr>) = (Inr (), ?s1)"
        by (simp add: sendAscii_queue)
      with 1(2) xq c have "dq ?s1 = Some y" by simp
      from 1(1) [OF this] c show False by simp
    qed
  qed
  show ?thesis
  proof (cases "drainQueue s")
    case None
    then show ?thesis .
  next
    case (Some y)
    from n [OF this] assms show ?thesis by blast
  qed
qed

lemma onConnected_total: "rxChar s \<noteq> None \<Longrightarrow> \<exists>s'. onConnected s = Some s'"
  by (simp add: onConnected_def drainQueue_total)

lemma onConnected_frame:
  assumes "onConnected s = Some s'"
  shows "connected s' \<and> \<not> connecting s' \<and> backoffMs s' = 1000 \<and> rxChar s' = rxChar s
       \<and> heap s' = heap s \<and> device s' = device s \<and> known s' = known s
       \<and> io_result s' = io_result s \<and> wantReconnect s' = wantReconnect s
       \<and> connect_calls (trace s') = connect_calls (trace s)
       \<and> (length (sendQueue s) \<le> QUEUE_MAX \<longrightarrow> length (sendQueue s') \<le> QUEUE_MAX)"
  using drainQueue_frame [of "onConnected_flags s" s']
    drainQueue_bound [of "onConnected_flags s" s'] assms
  by (simp add: onConnected_def)

lemma gattConnect_settled_total: "\<exists>r s'. gattConnect_settled d n s = Some (r, s')"
proof (cases "io_result s n")
  case (Some e)
  then show ?thesis by (simp add: gattConnect_settled_def)
next
  case None
  let ?s1 = "s\<lparr>heap := (heap s)(d := (heap s d)\<lparr>gatt_connected := True\<rparr>), server := Some d\<rparr>"
  obtain r s2 where sg: "setupGatt ?s1 = (r, s2)" by force
  show ?thesis
  proof (cases r)
    case (Inl e)
    with None sg show ?thesis by (simp add: gattConnect_settled_def Let_def)
  next
    case (Inr u)
    with setupGatt_cases [OF sg] have "rxChar s2 \<noteq> None" by simp
    then obtain s3 where "onConnected s2 = Some s3" using onConnected_total by blast
    with None sg Inr show ?thesis by (simp add: gattConnect_settled_def Let_def)
  qed
qed

lemma gattConnect_settled_frame:
  assumes "gattConnect_settled d n s = Some (r, s')"
  shows "connect_calls (trace s') = connect_calls (trace s)
       \<and> io_result s' = io_result s \<and> wantReconnect s' = wantReconnect s
       \<and> device s' = device s \<and> known s' = known s
       \<and> (\<forall>e. r = Inl e \<longrightarrow> backoffMs s' = backoffMs s \<and> connected s' = connected s)
       \<and> (\<forall>u. r = Inr u \<longrightarrow> backoffMs s' = 1000 \<and> connected s' \<and> rxChar s' = Some d
              \<and> gatt_connected (heap s' d) \<and> \<not> connecting s')
       \<and> ((connected s \<longrightarrow> rxChar s \<noteq> None) \<longrightarrow> (connected s' \<longrightarrow> rxChar s' \<noteq> None))
       \<and> (length (sendQueue s) \<le> QUEUE_MAX \<longrightarrow> length (sendQueue s') \<le> QUEUE_MAX)"
proof (cases "io_result s n")
  case (Some e)
  with assms show ?thesis by (auto simp add: gattConnect_settled_def)
next
  case None
  let ?s1 = "s\<lparr>heap := (heap s)(d := (heap s d)\<lparr>gatt_connected := True\<rparr>), server := Some d\<rparr>"
  obtain r2 s2 where sg: "setupGatt ?s1 = (r2, s2)" by force
  note f = setupGatt_cases [OF sg]
  show ?thesis
  proof (cases r2)
    case (Inl e)
    with None sg assms have "r = Inl e" "s' = s2" by (simp_all add: gattConnect_settled_def Let_def)
    with f show ?thesis by auto
  next
    case (Inr u)
    with None sg assms obtain s3 where oc: "onConnected s2 = Some s3" and r: "r = Inr ()" "s' = s3"
      by (auto simp add: gattConnect_settled_def Let_def)
    from onConnected_frame [OF oc] f Inr r show ?thesis by auto
  qed
qed

text \<open>One step of the loop, as conditional equations.\<close>

lemma drainQueue_Nil: "sendQueue s = [] \<Longrightarrow> drainQueue s = Some s"
  by (subst drainQueue.simps) simp

lemma drainQueue_not_connected: "\<not> connected s \<Longrightarrow> drainQueue s = Some s"
  by (subst drainQueue.simps) (simp split: list.splits)

lemma drainQueue_Cons:
  "sendQueue s = x # q \<Longrightarrow> connected s \<Longrightarrow>
   drainQueue s =
     (case sendAscii x (s\<lparr>sendQueue := q\<rparr>) of
        (Inl e, s1) \<Rightarrow> Some (setError e s1)
      | (Inr _, s1) \<Rightarrow> drainQueue s1)"
  by (subst drainQueue.simps) simp

subsection \<open>Backoff\<close>

lemma reconnect_failure_backoff:
  assumes "reconnect s = Some (Inl e, u)"
  shows "backoffMs u = backoffMs s"
proof (cases "device s")
  case None
  with assms show ?thesis by (simp add: reconnect_def)
next
  case (Some d)
  show ?thesis
  proof (cases "connecting s \<or> gatt_connected (heap s d)")
    case True
    with assms Some show ?thesis by (simp add: reconnect_def)
  next
    case False
    with assms Some obtain s1 where
      g: "gattConnect_settled d (length (trace s)) (reconnect_pending d s) = Some (Inl e, s1)"
      and u: "u = s1\<lparr>connecting := False\<rparr>"
      by (auto simp add: reconnect_def split: option.splits)
    from gattConnect_settled_frame [OF g] u show ?thesis
      by (simp add: reconnect_pending_def gattConnect_issue_def)
  qed
qed

lemma reconnect_success_backoff:
  assumes "reconnect s = Some (Inr v, u)" "device s = Some d"
    "\<not> connecting s" "\<not> gatt_connected (heap s d)"
  shows "backoffMs u = 1000 \<and> connected u \<and> rxChar u = Some d"
proof -
  from assms obtain s1 where
    g: "gattConnect_settled d (length (trace s)) (reconnect_pending d s) = Some (Inr v, s1)"
    and u: "u = s1\<lparr>connecting := False\<rparr>"
    by (auto simp add: reconnect_def split: option.splits)
  from gattConnect_settled_frame [OF g] u show ?thesis by simp
qed

lemma min_scale:
  fixes x M c :: nat
  assumes "1 \<le> c"
  shows "min (c * min x M) M = min (c * x) M"
proof (cases "x \<le> M")
  case True
  then show ?thesis by (simp add: min_absorb1)
next
  case False
  then have xm: "M < x" by simp
  have m: "M \<le> c * M" using assms by (cases c) simp_all
  have "x \<le> c * x" using assms by (cases c) simp_all
  with xm have x: "M \<le> c * x" by linarith
  from xm have "min x M = M" by simp
  with m x show ?thesis by (simp add: min_absorb2)
qed

lemma reconnectTimer_fire_failure:
  assumes "reconnect (s\<lparr>reconnectTimer := None\<rparr>) = Some (Inl e, u)"
  shows "\<exists>s'. reconnectTimer_fire s = Some s' \<and> backoffMs s' = min (2 * backoffMs s) backoffMax"
  using assms reconnect_failure_backoff [OF assms]
  by (simp add: reconnectTimer_fire_def Let_def mult.commute)

lemma failed_attempts_backoff:
  "failed_attempts n s = Some t \<Longrightarrow>
   backoffMs t = (if n = 0 then backoffMs s else min (2 ^ n * backoffMs s) backoffMax)"
proof (induction n arbitrary: s)
  case 0
  then show ?case by simp
next
  case (Suc n)
  from Suc.prems obtain e u s1 where
    r: "reconnect (s\<lparr>reconnectTimer := None\<rparr>) = Some (Inl e, u)"
    and f: "reconnectTimer_fire s = Some s1" and rest: "failed_attempts n s1 = Some t"
    by (auto split: option.splits sum.splits prod.splits)
  from reconnectTimer_fire_failure [OF r] f
  have b1: "backoffMs s1 = min (2 * backoffMs s) backoffMax" by simp
  show ?case
  proof (cases n)
    case 0
    with rest b1 show ?thesis by simp
  next
    case (Suc m)
    with Suc.IH [OF rest] have "backoffMs t = min (2 ^ n * backoffMs s1) backoffMax" by simp
    also have "\<dots> = min (2 ^ n * (2 * backoffMs s)) backoffMax"
      unfolding b1 by (rule min_scale) simp
    finally show ?thesis by (simp add: mult.assoc)
  qed
qed

lemma reconnect_total: "\<exists>r s'. reconnect s = Some (r, s')"
proof (cases "device s")
  case None
  then show ?thesis by (simp add: reconnect_def)
next
  case (Some d)
  obtain r s1 where "gattConnect_settled d (length (trace s)) (reconnect_pending d s) = Some (r, s1)"
    using gattConnect_settled_total by blast
  with Some show ?thesis by (simp add: reconnect_def)
qed

subsection \<open>The invariant of the reachable states\<close>

lemma link_inv_simple:
  "link_inv s \<Longrightarrow> link_inv (stopPolling s)"
  "link_inv s \<Longrightarrow> link_inv (startPolling s)"
  "link_inv s \<Longrightarrow> link_inv (stopReconnectTimer s)"
  "link_inv s \<Longrightarrow> link_inv (scheduleReconnect s)"
  "link_inv s \<Longrightarrow> link_inv (clearError s)"
  "link_inv s \<Longrightarrow> link_inv (setError e s)"
  "link_inv s \<Longrightarrow> link_inv (updateStateFromText v s)"
  "link_inv s \<Longrightarrow> link_inv (handleDisconnected s)"
  "link_inv s \<Longrightarrow> link_inv (disconnectInternal f s)"
  "link_inv s \<Longrightarrow> link_inv (attachDevice dev s)"
  "link_inv s \<Longrightarrow> link_inv (snd (requestDevice s))"
  "link_inv s \<Longrightarrow> link_inv (gattConnect_issue d s)"
  "link_inv s \<Longrightarrow> link_inv (clearQueue s)"
  by (cases e; auto simp add: link_inv_def stopPolling_def startPolling_def stopReconnectTimer_def
      scheduleReconnect_def clearError_def updateStateFromText_def handleDisconnected_def
      disconnectInternal_def attachDevice_def rememberDevice_def requestDevice_def
      gattConnect_issue_def clearQueue_def Let_def split: option.splits sum.splits)+

lemma link_inv_upd [simp]:
  "link_inv (s\<lparr>wantReconnect := w\<rparr>) = link_inv s"
  "link_inv (s\<lparr>reconnectTimer := t\<rparr>) = link_inv s"
  "link_inv (s\<lparr>connecting := c\<rparr>) = link_inv s"
  "link_inv (s\<lparr>heap := hp\<rparr>) = link_inv s"
  "link_inv (s\<lparr>known := k\<rparr>) = link_inv s"
  "link_inv (s\<lparr>device := dv\<rparr>) = link_inv s"
  "link_inv (s\<lparr>deviceName := n\<rparr>) = link_inv s"
  "link_inv (s\<lparr>deviceId := i\<rparr>) = link_inv s"
  "link_inv (s\<lparr>pollIntervalMs := p\<rparr>) = link_inv s"
  "link_inv (s\<lparr>edgeOn := b\<rparr>) = link_inv s"
  "link_inv (s\<lparr>edgeOff := b\<rparr>) = link_inv s"
  "link_inv (s\<lparr>edgeConnected := b\<rparr>) = link_inv s"
  "link_inv (s\<lparr>edgeDisconnected := b\<rparr>) = link_inv s"
  "link_inv (s\<lparr>trace := tr\<rparr>) = link_inv s"
  by (simp_all add: link_inv_def)

lemma link_inv_initial: "link_inv (initial devs io scan)"
  by (simp add: link_inv_def initial_def QUEUE_MAX_def backoffMax_def)

lemma link_inv_sendAscii:
  assumes "link_inv s"
  shows "link_inv (snd (sendAscii tok s))"
proof -
  obtain r s' where sa: "sendAscii tok s = (r, s')" by force
  from sendAscii_frame [OF sa] sendAscii_bound [of s tok] sa assms
  show ?thesis by (simp add: link_inv_def)
qed

lemma link_inv_sendText: "link_inv s \<Longrightarrow> link_inv (snd (sendText tok s))"
  using link_inv_sendAscii [of s tok]
  by (auto simp add: sendText_def link_inv_simple split: prod.splits sum.splits)

lemma link_inv_gattConnect_settled:
  assumes "link_inv s" "gattConnect_settled d n s = Some (r, s')"
  shows "link_inv s'"
proof (cases r)
  case (Inl e)
  with gattConnect_settled_frame [OF assms(2)] assms(1) show ?thesis
    by (simp add: link_inv_def)
next
  case (Inr u)
  with gattConnect_settled_frame [OF assms(2)] assms(1) show ?thesis
    by (simp add: link_inv_def backoffMax_def)
qed

lemma link_inv_connectAndSetup:
  "link_inv s \<Longrightarrow> connectAndSetup d s = Some (r, s') \<Longrightarrow> link_inv s'"
  unfolding connectAndSetup_def
  by (rule link_inv_gattConnect_settled [OF link_inv_simple(12)])

lemma link_inv_requestAndConnect:
  assumes "link_inv s" "requestAndConnect s = Some (r, s')"
  shows "link_inv s'"
proof -
  obtain r1 s1 where rd: "requestDevice s = (r1, s1)" by force
  from link_inv_simple(11) [OF assms(1)] rd have i1: "link_inv s1" by simp
  show ?thesis
  proof (cases r1)
    case (Inl e)
    with assms(2) rd i1 show ?thesis by (simp add: requestAndConnect_def)
  next
    case (Inr dev)
    with assms(2) rd have "connectAndSetup dev (attachDevice dev s1) = Some (r, s')"
      by (simp add: requestAndConnect_def)
    from link_inv_connectAndSetup [OF link_inv_simple(10) [OF i1] this] show ?thesis .
  qed
qed

lemma link_inv_reconnect:
  assumes "link_inv s" "reconnect s = Some (r, s')"
  shows "link_inv s'"
proof (cases "device s")
  case None
  with assms show ?thesis by (simp add: reconnect_def)
next
  case (Some d)
  show ?thesis
  proof (cases "connecting s \<or> gatt_connected (heap s d)")
    case True
    with assms Some show ?thesis by (auto simp add: reconnect_def)
  next
    case False
    with assms(2) Some obtain s1 where
      g: "gattConnect_settled d (length (trace s)) (reconnect_pending d s) = Some (r, s1)"
      and u: "s' = s1\<lparr>connecting := False\<rparr>"
      by (auto simp add: reconnect_def split: option.splits)
    have "link_inv (reconnect_pending d s)"
      using assms(1) by (simp add: reconnect_pending_def gattConnect_issue_def)
    from link_inv_gattConnect_settled [OF this g] u show ?thesis by simp
  qed
qed

lemma link_inv_reconnectTimer_fire:
  assumes "link_inv s" "reconnectTimer_fire s = Some s'"
  shows "link_inv s'"
proof -
  from assms(1) have i0: "link_inv (s\<lparr>reconnectTimer := None\<rparr>)" by simp
  obtain r s1 where rc: "reconnect (s\<lparr>reconnectTimer := None\<rparr>) = Some (r, s1)"
    using reconnect_total by blast
  from link_inv_reconnect [OF i0 rc] have i1: "link_inv s1" .
  show ?thesis
  proof (cases r)
    case (Inr u)
    with assms(2) rc i1 show ?thesis by (simp add: reconnectTimer_fire_def)
  next
    case (Inl e)
    from i1 have "link_inv (setError e s1)" by (rule link_inv_simple)
    then have "link_inv ((setError e s1)\<lparr>backoffMs := min (backoffMs (setError e s1) * 2) backoffMax\<rparr>)"
      by (simp add: link_inv_def backoffMax_def)
    then have "link_inv (scheduleReconnect ((setError e s1)\<lparr>backoffMs := min (backoffMs (setError e s1) * 2) backoffMax\<rparr>))"
      by (rule link_inv_simple)
    with assms(2) rc Inl show ?thesis by (simp add: reconnectTimer_fire_def Let_def)
  qed
qed

lemma link_inv_btnConnect:
  assumes "link_inv s" "btnConnect s = Some (r, s')"
  shows "link_inv s'"
proof -
  let ?s0 = "stopReconnectTimer ((clearError s)\<lparr>wantReconnect := True\<rparr>)"
  have i0: "link_inv ?s0" using assms(1) by (simp add: link_inv_simple)
  from assms(2) obtain r1 s1 where rq: "requestAndConnect ?s0 = Some (r1, s1)"
    by (auto simp add: btnConnect_def split: option.splits)
  from link_inv_requestAndConnect [OF i0 rq] have i1: "link_inv s1" .
  from assms(2) rq i1 show ?thesis
    by (cases r1) (auto simp add: btnConnect_def link_inv_simple)
qed

lemma link_inv_connectById:
  assumes "link_inv s" "connectById i s = Some (r, s')"
  shows "link_inv s'"
proof -
  let ?s0 = "stopReconnectTimer ((clearError s)\<lparr>wantReconnect := True\<rparr>)"
  let ?first = "case findById (js_trim i) ?s0 of
                 None \<Rightarrow> requestAndConnect ?s0
               | Some dev \<Rightarrow>
                   reconnect (?s0\<lparr>device := Some dev, deviceName := dev_name (heap ?s0 dev),
                                deviceId := dev_id (heap ?s0 dev)\<rparr>)"
  have i0: "link_inv ?s0" using assms(1) by (simp add: link_inv_simple)
  from assms(2) obtain r1 s1 where f: "?first = Some (r1, s1)"
    by (auto simp add: connectById_def Let_def split: option.splits)
  have i1: "link_inv s1"
  proof (cases "findById (js_trim i) ?s0")
    case None
    with f have "requestAndConnect ?s0 = Some (r1, s1)" by simp
    from link_inv_requestAndConnect [OF i0 this] show ?thesis .
  next
    case (Some dev)
    with f have "reconnect (?s0\<lparr>device := Some dev, deviceName := dev_name (heap ?s0 dev),
                                deviceId := dev_id (heap ?s0 dev)\<rparr>) = Some (r1, s1)" by simp
    from link_inv_reconnect [OF _ this] i0 show ?thesis by simp
  qed
  show ?thesis
  proof (cases r1)
    case (Inr u)
    with assms(2) f i1 show ?thesis by (simp add: connectById_def Let_def)
  next
    case (Inl e)
    with assms(2) f obtain r2 s2 where
      rq: "requestAndConnect (setError e s1) = Some (r2, s2)"
      by (auto simp add: connectById_def Let_def split: option.splits)
    from link_inv_requestAndConnect [OF link_inv_simple(6) [OF i1] rq] have i2: "link_inv s2" .
    from assms(2) f Inl rq i2 show ?thesis
      by (cases r2) (auto simp add: connectById_def Let_def link_inv_simple)
  qed
qed

lemma connectAndSetup_total: "\<exists>r s'. connectAndSetup d s = Some (r, s')"
  unfolding connectAndSetup_def by (rule gattConnect_settled_total)

lemma requestAndConnect_total: "\<exists>r s'. requestAndConnect s = Some (r, s')"
proof -
  obtain r1 s1 where rd: "requestDevice s = (r1, s1)" by force
  show ?thesis
  proof (cases r1)
    case (Inl e)
    with rd show ?thesis by (simp add: requestAndConnect_def)
  next
    case (Inr dev)
    with rd connectAndSetup_total [of dev "attachDevice dev s1"] show ?thesis
      by (simp add: requestAndConnect_def)
  qed
qed

lemma connectSendById_unknown:
  "findById i s = None \<Longrightarrow>
   connectSendById i a s = Some (Inl (Err ''Error'' (msg_unknown_id @ i)), s)"
  by (simp add: connectSendById_def)

lemma connectSendById_total: "\<exists>r s'. connectSendById i a s = Some (r, s')"
proof (cases "findById i s")
  case None
  then show ?thesis by (simp add: connectSendById_unknown)
next
  case (Some dev)
  let ?sw = "s\<lparr>device := Some dev, deviceName := dev_name (heap s dev),
                deviceId := dev_id (heap s dev)\<rparr>"
  obtain d s1 where sel: "(case device s of None \<Rightarrow> (dev, ?sw)
      | Some cur \<Rightarrow> if dev_id (heap s cur) \<noteq> dev_id (heap s dev) then (dev, ?sw) else (cur, s))
      = (d, s1)" by force
  obtain r2 s2 where c: "(if \<not> gatt_connected (heap s1 d) then connectAndSetup d s1
      else Some (Inr (), s1)) = Some (r2, s2)"
    using connectAndSetup_total [of d s1] by (cases "gatt_connected (heap s1 d)") auto
  show ?thesis
  proof (cases r2)
    case (Inl e)
    with Some sel c show ?thesis
      by (simp add: connectSendById_def Let_def del: split_paired_Ex)
  next
    case (Inr u)
    with Some sel c show ?thesis
      by (simp add: connectSendById_def Let_def readState_def del: split_paired_Ex)
  qed
qed

lemma link_inv_connectSendById:
  assumes "link_inv s" "connectSendById i a s = Some (r, s')"
  shows "link_inv s'"
proof (cases "findById i s")
  case None
  with assms show ?thesis by (simp add: connectSendById_unknown)
next
  case (Some dev)
  let ?sw = "s\<lparr>device := Some dev, deviceName := dev_name (heap s dev),
                deviceId := dev_id (heap s dev)\<rparr>"
  obtain d s1 where sel: "(case device s of None \<Rightarrow> (dev, ?sw)
      | Some cur \<Rightarrow> if dev_id (heap s cur) \<noteq> dev_id (heap s dev) then (dev, ?sw) else (cur, s))
      = (d, s1)" by force
  have i1: "link_inv s1"
    using sel assms(1) by (auto split: option.splits if_splits)
  obtain r2 s2 where c: "(if \<not> gatt_connected (heap s1 d) then connectAndSetup d s1
      else Some (Inr (), s1)) = Some (r2, s2)"
    using connectAndSetup_total [of d s1] by (cases "gatt_connected (heap s1 d)") auto
  have i2: "link_inv s2"
    using c i1 link_inv_connectAndSetup [of s1 d r2 s2] by (auto split: if_splits)
  show ?thesis
  proof (cases r2)
    case (Inl e)
    with Some sel c assms(2) i2 show ?thesis
      by (simp add: connectSendById_def Let_def)
  next
    case (Inr u)
    with Some sel c assms(2) have "(r, s') = (if a = ''ON'' then sendAscii ''1'' s2
                        else if a = ''OFF'' then sendAscii ''0'' s2
                        else if a = ''TOGGLE'' then sendAscii ''t'' s2
                        else sendAscii ''s'' s2)"
      by (auto simp add: connectSendById_def Let_def readState_def split: if_splits)
    then have "s' = snd (sendAscii ''1'' s2) \<or> s' = snd (sendAscii ''0'' s2)
       \<or> s' = snd (sendAscii ''t'' s2) \<or> s' = snd (sendAscii ''s'' s2)"
      by (metis snd_conv)
    with i2 show ?thesis by (auto simp add: link_inv_sendAscii)
  qed
qed

lemma bulk_loop_total: "\<exists>s'. bulk_loop ids a s = Some s'"
proof (induction ids arbitrary: s)
  case Nil
  show ?case by simp
next
  case (Cons i ids)
  obtain r s1 where c: "connectSendById i a s = Some (r, s1)"
    using connectSendById_total by blast
  show ?case
  proof (cases r)
    case (Inl e)
    with c Cons.IH show ?thesis by simp
  next
    case (Inr u)
    with c Cons.IH show ?thesis by simp
  qed
qed

lemma link_inv_bulk_loop:
  "link_inv s \<Longrightarrow> bulk_loop ids a s = Some s' \<Longrightarrow> link_inv s'"
proof (induction ids arbitrary: s)
  case Nil
  then show ?case by simp
next
  case (Cons i ids)
  obtain r s1 where c: "connectSendById i a s = Some (r, s1)"
    using connectSendById_total by blast
  from link_inv_connectSendById [OF Cons.prems(1) c] have i1: "link_inv s1" .
  show ?case
  proof (cases r)
    case (Inl e)
    with c Cons.prems(2) have
      "bulk_loop ids a (setError (Str (''ID '' @ i @ '': '' @ message_or_self e)) s1) = Some s'"
      by simp
    from Cons.IH [OF link_inv_simple(6) [OF i1] this] show ?thesis .
  next
    case (Inr u)
    with c Cons.prems(2) have "bulk_loop ids a s1 = Some s'" by simp
    from Cons.IH [OF i1 this] show ?thesis .
  qed
qed

lemma link_inv_bulkCsv:
  "link_inv s \<Longrightarrow> bulkCsv up csv act s = Some s' \<Longrightarrow> link_inv s'"
  using link_inv_bulk_loop [of "clearError s" _ _ s'] link_inv_simple(5) [of s]
  by (auto simp add: bulkCsv_def Let_def split: if_splits)

lemma bulkCsv_total: "\<exists>s'. bulkCsv up csv act s = Some s'"
  using bulk_loop_total by (simp add: bulkCsv_def Let_def)

lemma link_inv_facade:
  "link_inv s \<Longrightarrow> link_inv (disconnect s)"
  "link_inv s \<Longrightarrow> link_inv (forgetCurrent s)"
  "link_inv s \<Longrightarrow> link_inv (forgetAll s)"
  "link_inv s \<Longrightarrow> link_inv (setReconnect on s)"
  "link_inv s \<Longrightarrow> link_inv (setPoll v s)"
  "link_inv s \<Longrightarrow> link_inv (snd (whenOn s))"
  "link_inv s \<Longrightarrow> link_inv (snd (whenOff s))"
  "link_inv s \<Longrightarrow> link_inv (snd (whenConnected s))"
  "link_inv s \<Longrightarrow> link_inv (snd (whenDisconnected s))"
  "link_inv s \<Longrightarrow> link_inv (characteristicvaluechanged raw s)"
  "link_inv s \<Longrightarrow> link_inv (gattserverdisconnected h s)"
  "link_inv s \<Longrightarrow> link_inv (visibilitychange hidden s)"
  "link_inv s \<Longrightarrow> link_inv (beforeunload s)"
  by (simp_all add: disconnect_def forgetCurrent_def forgetAll_def setReconnect_def setPoll_def
      whenOn_def whenOff_def whenConnected_def whenDisconnected_def
      characteristicvaluechanged_def gattserverdisconnected_def visibilitychange_def
      beforeunload_def Let_def link_inv_simple split: option.splits)

lemma link_inv_forgetById: "link_inv s \<Longrightarrow> link_inv (forgetById i s)"
  by (simp add: forgetById_def Let_def link_inv_facade split: option.splits)

lemma link_inv_relay:
  "link_inv s \<Longrightarrow> link_inv (snd (relayOn s))"
  "link_inv s \<Longrightarrow> link_inv (snd (relayOff s))"
  "link_inv s \<Longrightarrow> link_inv (snd (relayToggle s))"
  "link_inv s \<Longrightarrow> link_inv (snd (readStateCmd s))"
  "link_inv s \<Longrightarrow> link_inv (pollTimer_fire s)"
proof -
  assume i: "link_inv s"
  show "link_inv (snd (relayOn s))" "link_inv (snd (relayOff s))" "link_inv (snd (relayToggle s))"
    using i by (simp_all add: relayOn_def relayOff_def relayToggle_def link_inv_sendText)
  have "readStateCmd s = sendText ''s'' s"
    by (simp add: readStateCmd_def sendText_def readState_def)
  with i show "link_inv (snd (readStateCmd s))" by (simp add: link_inv_sendText)
  from link_inv_sendAscii [OF i, of "''s''"] show "link_inv (pollTimer_fire s)"
    by (auto simp add: pollTimer_fire_def readState_def link_inv_simple
        split: prod.splits sum.splits)
qed

lemma reachable_link_inv: "reachable s \<Longrightarrow> link_inv s"
proof (induction rule: reachable.induct)
  case (r_initial devs io scan)
  show ?case by (rule link_inv_initial)
qed (auto intro: link_inv_facade link_inv_relay link_inv_forgetById link_inv_sendText
      link_inv_simple link_inv_btnConnect link_inv_connectById link_inv_bulkCsv
      link_inv_reconnectTimer_fire)

subsection \<open>Traces and the origin of errors\<close>

text \<open>The trace only grows, the environment stays the same, and an error of the connection
  functions is a rejection that the environment gave.\<close>

lemma scan_result_simps [simp]:
  "scan_result (scheduleReconnect s) = scan_result s"
  "scan_result (onConnected_flags s) = scan_result s"
  "scan_result (setError e s) = scan_result s"
  "scan_result (clearError s) = scan_result s"
  "scan_result (stopReconnectTimer s) = scan_result s"
  by (cases e; simp add: scheduleReconnect_def onConnected_flags_def clearError_def
      startPolling_def stopPolling_def stopReconnectTimer_def Let_def)+

lemma sendAscii_trace:
  assumes "sendAscii tok s = (r, s')"
  shows "(\<exists>tr. trace s' = trace s @ tr) \<and> scan_result s' = scan_result s
       \<and> lastError s' = lastError s"
proof (cases "\<not> connected s \<or> rxChar s = None")
  case True
  with assms show ?thesis
    by (cases "wantReconnect s") (auto simp add: sendAscii_def Let_def split: if_splits)
next
  case False
  then obtain h where "connected s" "rxChar s = Some h" by auto
  with assms show ?thesis
    by (auto simp add: sendAscii_write)
qed

lemma drainQueue_trace:
  assumes "drainQueue s = Some s'"
  shows "(\<exists>tr. trace s' = trace s @ tr) \<and> scan_result s' = scan_result s"
  using assms
proof (induct rule: drainQueue.raw_induct [rotated 1, consumes 1, case_names 1])
  case (1 dq s s')
  show ?case
  proof (cases "sendQueue s")
    case Nil
    with 1(2) show ?thesis by simp
  next
    case (Cons x q)
    show ?thesis
    proof (cases "connected s")
      case False
      with 1(2) Cons show ?thesis by simp
    next
      case True
      obtain r s1 where sa: "sendAscii x (s\<lparr>sendQueue := q\<rparr>) = (r, s1)" by force
      from sendAscii_trace [OF sa] obtain tr1 where
        f: "trace s1 = trace s @ tr1" "scan_result s1 = scan_result s" by auto
      show ?thesis
      proof (cases r)
        case (Inl e)
        with 1(2) Cons True sa have "s' = setError e s1" by simp
        with f show ?thesis by (cases e) simp_all
      next
        case (Inr u)
        with 1(2) Cons True sa have "dq s1 = Some s'" by simp
        from 1(1) [OF this] f show ?thesis by auto
      qed
    qed
  qed
qed

lemma setupGatt_trace:
  assumes "setupGatt s = (r, s')"
  shows "(\<exists>tr. trace s' = trace s @ tr) \<and> scan_result s' = scan_result s
       \<and> (\<forall>e. r = Inl e \<and> server s \<noteq> None \<longrightarrow> (\<exists>n. io_result s n = Some e))"
  using assms
  by (auto simp add: setupGatt_def transport_def
      split: option.splits sum.splits prod.splits)

lemma gattConnect_settled_trace:
  assumes "gattConnect_settled d n s = Some (r, s')"
  shows "(\<exists>tr. trace s' = trace s @ tr) \<and> scan_result s' = scan_result s
       \<and> (\<forall>e. r = Inl e \<longrightarrow> (\<exists>m. io_result s m = Some e))"
proof (cases "io_result s n")
  case (Some e)
  with assms show ?thesis by (auto simp add: gattConnect_settled_def)
next
  case None
  let ?s1 = "s\<lparr>heap := (heap s)(d := (heap s d)\<lparr>gatt_connected := True\<rparr>), server := Some d\<rparr>"
  obtain r2 s2 where sg: "setupGatt ?s1 = (r2, s2)" by force
  from setupGatt_trace [OF sg] obtain tr1 where
    f: "trace s2 = trace s @ tr1" "scan_result s2 = scan_result s"
      "\<forall>e. r2 = Inl e \<longrightarrow> (\<exists>n. io_result s n = Some e)" by auto
  show ?thesis
  proof (cases r2)
    case (Inl e)
    with None sg assms have "r = Inl e" "s' = s2" by (simp_all add: gattConnect_settled_def Let_def)
    with f Inl show ?thesis by auto
  next
    case (Inr u)
    with None sg assms obtain s3 where oc: "drainQueue (onConnected_flags s2) = Some s3"
      and r: "r = Inr ()" "s' = s3"
      by (auto simp add: gattConnect_settled_def Let_def onConnected_def)
    from drainQueue_trace [OF oc] f r show ?thesis by auto
  qed
qed

lemma requestAndConnect_trace:
  assumes "requestAndConnect s = Some (r, s')"
  shows "(\<exists>tr. trace s' = trace s @ RequestDevice NamePrefixFilters # tr)
       \<and> scan_result s' = scan_result s \<and> io_result s' = io_result s
       \<and> (\<forall>e. r = Inl e \<longrightarrow> (\<exists>m. io_result s m = Some e \<or> scan_result s m = Inl e))"
proof -
  obtain r1 s1 where rd: "requestDevice s = (r1, s1)" by force
  then have t1: "\<exists>tr. trace s1 = trace s @ RequestDevice NamePrefixFilters # tr"
    and e1: "scan_result s1 = scan_result s" "io_result s1 = io_result s"
    and x1: "\<forall>e. r1 = Inl e \<longrightarrow> (\<exists>m. scan_result s m = Inl e)"
    by (auto simp add: requestDevice_def Let_def split: sum.splits)
  show ?thesis
  proof (cases r1)
    case (Inl e)
    with assms rd have "r = Inl e" "s' = s1" by (simp_all add: requestAndConnect_def)
    with t1 e1 x1 Inl show ?thesis by auto
  next
    case (Inr dev)
    let ?s2 = "gattConnect_issue dev (attachDevice dev s1)"
    from assms rd Inr have g: "gattConnect_settled dev (length (trace (attachDevice dev s1))) ?s2 = Some (r, s')"
      by (simp add: requestAndConnect_def connectAndSetup_def)
    have p: "trace ?s2 = trace s1 @ [GattConnect dev]" "scan_result ?s2 = scan_result s1"
      "io_result ?s2 = io_result s1"
      by (simp_all add: gattConnect_issue_def attachDevice_def rememberDevice_def)
    from gattConnect_settled_trace [OF g] gattConnect_settled_frame [OF g] t1 e1 p
    show ?thesis by auto
  qed
qed

subsection \<open>The example world\<close>

text \<open>The definitions that evaluate an operation on a concrete state.\<close>

lemmas eval_defs = btnConnect_def requestAndConnect_def requestDevice_def attachDevice_def
  rememberDevice_def connectAndSetup_def gattConnect_issue_def gattConnect_settled_def
  setupGatt_def transport_def onConnected_def onConnected_flags_def clearError_def
  startPolling_def stopPolling_def stopReconnectTimer_def scheduleReconnect_def Let_def
  drainQueue_Nil drainQueue_Cons drainQueue_not_connected sendAscii_def writeValue_def
  readState_def findById_def connectSendById_def reconnect_def reconnect_pending_def
  reconnectTimer_fire_def disconnect_def disconnectInternal_def handleDisconnected_def
  gattserverdisconnected_def sendText_def relayOn_def

lemmas world_defs = idle_def fresh_def initial_def two_relays_def scan_a_then_c_def

lemma btnConnect_fresh:
  assumes "\<And>n. n \<le> 5 \<Longrightarrow> io n = None"
  shows "btnConnect (fresh io) = Some (Inr (), scanned_a io)"
  using assms by (simp add: eval_defs scanned_a_def world_defs)

lemma btnConnect_linked: "btnConnect linked = Some (Inr (), scanned_ac)"
  by (simp add: eval_defs scanned_ac_def linked_def scanned_a_def world_defs fun_upd_twist)

lemma reachable_linked: "reachable linked"
proof -
  have "reachable idle" unfolding idle_def fresh_def by (rule r_initial)
  moreover have "btnConnect idle = Some (Inr (), linked)"
    unfolding idle_def linked_def by (rule btnConnect_fresh) simp
  ultimately show ?thesis by (rule r_btnConnect)
qed

lemma reachable_both_known: "reachable both_known"
  unfolding both_known_def
  by (intro r_link_lost r_disconnect r_btnConnect [OF reachable_linked btnConnect_linked])

lemma trim_abc:
  "js_trim ''a,b,c'' = ''a,b,c''" "js_trim ''a'' = ''a''" "js_trim ''b'' = ''b''"
  "js_trim ''c'' = ''c''"
  by code_simp+

lemma upper_OFF: "ascii_upper ''OFF'' = ''OFF''" "ascii_upper ''ON'' = ''ON''"
  by code_simp+

subsection \<open>Bulk dispatch and connecting by id\<close>

lemma bulk_loop_append:
  "bulk_loop (xs @ ys) a s =
     (case bulk_loop xs a s of None \<Rightarrow> None | Some s1 \<Rightarrow> bulk_loop ys a s1)"
proof (induction xs arbitrary: s)
  case Nil
  show ?case by simp
next
  case (Cons i xs)
  obtain r s1 where c: "connectSendById i a s = Some (r, s1)"
    using connectSendById_total by blast
  show ?case using c Cons.IH by (cases r) simp_all
qed

lemma gattConnect_settled_clears:
  assumes "gattConnect_settled d n s = Some (Inr u, s')" "sendQueue s = []"
  shows "lastError s' = [] \<and> sendQueue s' = []"
proof (cases "io_result s n")
  case (Some e)
  with assms show ?thesis by (simp add: gattConnect_settled_def)
next
  case None
  let ?s1 = "s\<lparr>heap := (heap s)(d := (heap s d)\<lparr>gatt_connected := True\<rparr>), server := Some d\<rparr>"
  obtain r2 s2 where sg: "setupGatt ?s1 = (r2, s2)" by force
  from setupGatt_cases [OF sg] assms(2) have q: "sendQueue s2 = []" by simp
  from None sg assms(1) have "r2 = Inr ()" "onConnected s2 = Some s'"
    by (auto simp add: gattConnect_settled_def Let_def split: sum.splits)
  with q show ?thesis by (auto simp add: onConnected_def drainQueue_Nil)
qed

lemma connectSendById_switch:
  assumes "findById i s = Some dev"
    and "device s = None \<or> (\<exists>cur. device s = Some cur \<and> dev_id (heap s cur) \<noteq> dev_id (heap s dev))"
    and "\<not> gatt_connected (heap s dev)"
  shows "connectSendById i a s =
     (case connectAndSetup dev (s\<lparr>device := Some dev, deviceName := dev_name (heap s dev),
                                   deviceId := dev_id (heap s dev)\<rparr>) of
        None \<Rightarrow> None
      | Some (Inl e, s2) \<Rightarrow> Some (Inl e, s2)
      | Some (Inr _, s2) \<Rightarrow>
          Some (if a = ''ON'' then sendAscii ''1'' s2
                else if a = ''OFF'' then sendAscii ''0'' s2
                else if a = ''TOGGLE'' then sendAscii ''t'' s2
                else readState s2))"
  using assms by (auto simp add: connectSendById_def Let_def split: option.splits)

lemma connectAndSetup_success:
  assumes "connectAndSetup d s = Some (Inr u, s')"
  shows "connected s' \<and> rxChar s' = Some d
       \<and> (sendQueue s = [] \<longrightarrow> lastError s' = [])"
  using gattConnect_settled_frame [of d "length (trace s)" "gattConnect_issue d s" "Inr u" s']
    gattConnect_settled_clears [of d "length (trace s)" "gattConnect_issue d s" u s'] assms
  by (simp add: connectAndSetup_def gattConnect_issue_def)

lemma reachable_idle: "reachable idle"
  unfolding idle_def fresh_def by (rule r_initial)

lemma reachable_armed: "reachable armed"
  unfolding armed_def by (rule r_setReconnect [OF reachable_idle])

lemma armed_facts:
  "\<not> connected armed" "wantReconnect armed" "sendQueue armed = []" "device armed = None"
  "backoffMs armed = 1000" "reconnectTimer armed = Some 1000"
  by (simp_all add: armed_def setReconnect_def scheduleReconnect_def Let_def world_defs)

lemma dropped_facts:
  "device dropped = Some 1" "\<not> connecting dropped" "\<not> gatt_connected (heap dropped 1)"
  "\<not> connected dropped" "wantReconnect dropped" "reconnectTimer dropped = Some 1000"
  "sendQueue dropped = []" "backoffMs dropped = 1000"
  by (simp_all add: dropped_def eval_defs linked_def scanned_a_def world_defs)

lemma reachable_dropped: "reachable dropped"
  unfolding dropped_def by (rule r_link_lost [OF reachable_linked])

lemma findById_prepare [simp]:
  "findById i (stopReconnectTimer ((clearError s)\<lparr>wantReconnect := True\<rparr>)) = findById i s"
  by (simp add: findById_def stopReconnectTimer_def clearError_def)

lemma prepare_fields [simp]:
  "trace (stopReconnectTimer ((clearError s)\<lparr>wantReconnect := True\<rparr>)) = trace s"
  "io_result (stopReconnectTimer ((clearError s)\<lparr>wantReconnect := True\<rparr>)) = io_result s"
  "scan_result (stopReconnectTimer ((clearError s)\<lparr>wantReconnect := True\<rparr>)) = scan_result s"
  "heap (stopReconnectTimer ((clearError s)\<lparr>wantReconnect := True\<rparr>)) = heap s"
  by (simp_all add: stopReconnectTimer_def clearError_def)

lemma trim_zz: "js_trim ''zz'' = ''zz''" by code_simp

lemma onConnected_forgets_error: "onConnected (s\<lparr>lastError := x\<rparr>) = onConnected s"
proof -
  have "onConnected_flags (s\<lparr>lastError := x\<rparr>) = onConnected_flags s"
    by (simp add: onConnected_flags_def clearError_def Let_def startPolling_def stopPolling_def)
  then show ?thesis by (simp add: onConnected_def)
qed

lemma setupGatt_lastError:
  "setupGatt (s\<lparr>lastError := x\<rparr>) =
     (fst (setupGatt s), (snd (setupGatt s))\<lparr>lastError := x\<rparr>)"
  by (simp add: setupGatt_def transport_def split: option.splits)

lemma gattConnect_settled_forgets_error:
  assumes "gattConnect_settled d n s = Some (Inr u, s')"
  shows "gattConnect_settled d n (s\<lparr>lastError := x\<rparr>) = Some (Inr u, s')"
proof -
  let ?s1 = "s\<lparr>heap := (heap s)(d := (heap s d)\<lparr>gatt_connected := True\<rparr>), server := Some d\<rparr>"
  let ?t = "s\<lparr>lastError := x\<rparr>"
  let ?t1 = "?t\<lparr>heap := (heap ?t)(d := (heap ?t d)\<lparr>gatt_connected := True\<rparr>), server := Some d\<rparr>"
  from assms have io: "io_result s n = None"
    by (auto simp add: gattConnect_settled_def split: option.splits)
  obtain r2 s2 where sg: "setupGatt ?s1 = (r2, s2)" by force
  from assms io sg have r2: "r2 = Inr ()" and oc: "onConnected s2 = Some s'"
    by (auto simp add: gattConnect_settled_def Let_def split: sum.splits)
  have "?t1 = ?s1\<lparr>lastError := x\<rparr>" by simp
  then have "setupGatt ?t1 = setupGatt (?s1\<lparr>lastError := x\<rparr>)" by (rule arg_cong)
  also have "\<dots> = (Inr (), s2\<lparr>lastError := x\<rparr>)"
    using sg r2 by (simp only: setupGatt_lastError fst_conv snd_conv)
  finally have sg': "setupGatt ?t1 = (Inr (), s2\<lparr>lastError := x\<rparr>)" .
  have "gattConnect_settled d n ?t =
      (case setupGatt ?t1 of
         (Inl e, s2) \<Rightarrow> Some (Inl e, s2)
       | (Inr _, s2) \<Rightarrow> map_option (Pair (Inr ())) (onConnected s2))"
    using io unfolding gattConnect_settled_def Let_def by simp
  also have "\<dots> = Some (Inr (), s')"
    unfolding sg' using oc by (simp add: onConnected_forgets_error)
  finally show ?thesis by simp
qed

lemma connectAndSetup_forgets_error:
  assumes "connectAndSetup d s = Some (Inr u, s')"
  shows "connectAndSetup d (s\<lparr>lastError := x\<rparr>) = Some (Inr u, s')"
proof -
  have "gattConnect_issue d (s\<lparr>lastError := x\<rparr>) = (gattConnect_issue d s)\<lparr>lastError := x\<rparr>"
    by (simp add: gattConnect_issue_def)
  with gattConnect_settled_forgets_error [of d "length (trace s)" "gattConnect_issue d s" u s' x] assms
  show ?thesis by (simp add: connectAndSetup_def)
qed



lemma both_known_facts:
  "findById ''a'' both_known = Some 1" "findById ''b'' both_known = None"
  "findById ''c'' both_known = Some 2" "device both_known = Some 2"
  "dev_id (heap both_known 2) = ''c''" "dev_id (heap both_known 1) = ''a''"
  "\<not> gatt_connected (heap both_known 1)" "\<not> gatt_connected (heap both_known 2)"
  "sendQueue both_known = []" "length (trace both_known) = 13"
  "\<not> connected both_known"
  by (simp_all add: both_known_def eval_defs scanned_ac_def linked_def scanned_a_def world_defs)

lemma connectSendById_default:
  "a \<notin> {''ON'', ''OFF'', ''TOGGLE''} \<Longrightarrow> connectSendById i a s = connectSendById i ''READ'' s"
  by (simp add: connectSendById_def
      cong: option.case_cong prod.case_cong sum.case_cong if_cong)

lemma bulk_loop_default:
  "a \<notin> {''ON'', ''OFF'', ''TOGGLE''} \<Longrightarrow> bulk_loop ids a s = bulk_loop ids ''READ'' s"
proof (induction ids arbitrary: s)
  case Nil
  show ?case by simp
next
  case (Cons i ids)
  from Cons.prems have "connectSendById i a s = connectSendById i ''READ'' s"
    by (rule connectSendById_default)
  with Cons.IH [OF Cons.prems] show ?case
    by (simp split: option.splits sum.splits prod.splits)
qed

lemma upper_blink: "ascii_upper ''blink'' = ''BLINK''" by code_simp

text \<open>With both relays connected and the second one set up last, \<open>connectSendById\<close> does
  not set up the first relay again when it switches to it: both "0" of a bulk dispatch to
  a and c go to the write channel of the second relay.\<close>

lemma stale_channel:
  "findById ''a'' scanned_ac = Some 1 \<and> findById ''b'' scanned_ac = None
   \<and> findById ''c'' scanned_ac = Some 2
   \<and> map_option lastError (bulkCsv ascii_upper ''a,b,c'' ''OFF'' scanned_ac)
     = Some (''ID b: '' @ msg_unknown_id @ ''b'')
   \<and> map_option trace (bulkCsv ascii_upper ''a,b,c'' ''OFF'' scanned_ac)
     = Some (trace scanned_ac @ [WriteValue 2 ''0'', WriteValue 2 ''0''])"
  by (simp add: bulkCsv_def trim_abc upper_OFF eval_defs
      scanned_ac_def linked_def scanned_a_def world_defs msg_unknown_id_def)

subsection \<open>Overlapping operations\<close>

lemma schedule_overlapped:
  "overlapped p s \<Longrightarrow> schedule evs p s = Some (p', s') \<Longrightarrow> overlapped p' s'"
proof (induction evs arbitrary: p s)
  case Nil
  then show ?case by simp
next
  case (Cons ev evs)
  from Cons.prems(2) obtain p1 s1 where o: "occurs ev p s = Some (p1, s1)"
    and r: "schedule evs p1 s1 = Some (p', s')"
    by (auto split: option.splits)
  from o_event [OF Cons.prems(1) o] have "overlapped p1 s1" .
  from Cons.IH [OF this r] show ?case .
qed

text \<open>The callback of the timer run without interruption is one of the schedules: the
  pieces put together are \<open>reconnectTimer_fire\<close>.\<close>

lemmas timer_defs = reconnectTimer_fire_def reconnect_def gattConnect_settled_def setupGatt_def
  transport_def reconnect_pending_def gattConnect_issue_def reconnectTimer_settled_def Let_def

lemma reconnectTimer_fire_schedule:
  assumes t: "reconnectTimer s \<noteq> None" and f: "reconnectTimer_fire s = Some s'"
  shows "\<exists>k\<le>5. schedule (Timer_fires # replicate k Call_settles) None s = Some (None, s')"
proof (cases "device s")
  case None
  with t f have "schedule (Timer_fires # replicate 0 Call_settles) None s = Some (None, s')"
    by (auto simp add: timer_defs)
  then show ?thesis by blast
next
  case (Some d)
  let ?n = "length (trace s)"
  show ?thesis
  proof (cases "connecting s \<or> gatt_connected (heap s d)")
    case True
    with t f Some have "schedule (Timer_fires # replicate 0 Call_settles) None s = Some (None, s')"
      by (auto simp add: timer_defs)
    then show ?thesis by blast
  next
    case g: False
    show ?thesis
    proof (cases "io_result s ?n")
      case (Some e)
      with t f \<open>device s = Some d\<close> g
      have "schedule (Timer_fires # replicate (Suc 0) Call_settles) None s = Some (None, s')"
        by (auto simp add: timer_defs)
      then show ?thesis by (intro exI [of _ "Suc 0"]) simp
    next
      case c1: None
      show ?thesis
      proof (cases "io_result s (Suc ?n)")
        case (Some e)
        with t f \<open>device s = Some d\<close> g c1
        have "schedule (Timer_fires # replicate (Suc (Suc 0)) Call_settles) None s
              = Some (None, s')"
          by (auto simp add: timer_defs)
        then show ?thesis by (intro exI [of _ "Suc (Suc 0)"]) simp
      next
        case c2: None
        show ?thesis
        proof (cases "io_result s (Suc (Suc ?n))")
          case (Some e)
          with t f \<open>device s = Some d\<close> g c1 c2
          have "schedule (Timer_fires # replicate (Suc (Suc (Suc 0))) Call_settles) None s
                = Some (None, s')"
            by (auto simp add: timer_defs)
          then show ?thesis by (intro exI [of _ "Suc (Suc (Suc 0))"]) simp
        next
          case c3: None
          show ?thesis
          proof (cases "io_result s (Suc (Suc (Suc ?n)))")
            case (Some e)
            with t f \<open>device s = Some d\<close> g c1 c2 c3
            have "schedule (Timer_fires # replicate (Suc (Suc (Suc (Suc 0)))) Call_settles)
                    None s = Some (None, s')"
              by (auto simp add: timer_defs)
            then show ?thesis by (intro exI [of _ "Suc (Suc (Suc (Suc 0)))"]) simp
          next
            case c4: None
            with t f \<open>device s = Some d\<close> g c1 c2 c3
            have "schedule (Timer_fires # replicate (Suc (Suc (Suc (Suc (Suc 0))))) Call_settles)
                    None s = Some (None, s')"
              by (auto simp add: timer_defs split: option.splits)
            then show ?thesis by (intro exI [of _ "Suc (Suc (Suc (Suc (Suc 0))))"]) simp
          qed
        qed
      qed
    qed
  qed
qed

lemma reachable_scanned_ac: "reachable scanned_ac"
  by (rule r_btnConnect [OF reachable_linked btnConnect_linked])

lemma reachable_links_lost: "reachable links_lost"
  unfolding links_lost_def by (intro r_link_lost reachable_scanned_ac)

lemma links_lost_facts:
  "device links_lost = Some 2" "reconnectTimer links_lost = Some 1000"
  "\<not> connected links_lost" "wantReconnect links_lost"
  "\<not> gatt_connected (heap links_lost 2)" "\<not> gatt_connected (heap links_lost 1)"
  "findById ''a'' links_lost = Some 1"
  "length (trace links_lost) = 12"
  by (simp_all add: links_lost_def eval_defs scanned_ac_def linked_def scanned_a_def world_defs)

lemma race_astray: "schedule race None links_lost = Some (None, astray)"
  by (simp add: astray_def race_def links_lost_def eval_defs scanned_ac_def linked_def
      scanned_a_def world_defs connectById_def trim_abc reconnectTimer_settled_def fun_upd_twist)

lemma astray_facts:
  "connected astray" "rxChar astray = None" "\<not> wantReconnect astray"
  "sendQueue astray = []"
  by (simp_all add: astray_def links_lost_def eval_defs scanned_ac_def linked_def
      scanned_a_def world_defs)

lemma overlapped_astray: "overlapped None astray"
  by (rule schedule_overlapped [OF o_serial [OF reachable_links_lost] race_astray])

section \<open>The claims\<close>

subsection \<open>C1: edge flags of the state tracker\<close>

text \<open>
  C1. Let \<open>s\<close> be the state after any sequence \<open>vs\<close> of notification texts, from any
  state, and \<open>s'\<close> the state after one more text \<open>v\<close>. The texts "on" and "1" decode to
  the number 1, the texts "off" and "0" to 0, and any other text leaves the stored number
  as it was. \<^verbatim>\<open>edgeOn\<close> is set by this notification exactly when the stored number was 0
  and the text decodes to 1 (a flag that was already set and not read stays set),
  \<^verbatim>\<open>edgeOff\<close> exactly when it was 1 and the text decodes to 0. A notification that
  leaves the number as it was sets neither flag; once a hat block has read the flag, the
  same notification again does not set it a second time; and the notification changes
  nothing but the stored text, the two numbers and the two flags.
\<close>

theorem updateStateFromText_edges:
  fixes s0 :: state and vs :: "string list" and v :: string
  defines "s \<equiv> foldl (\<lambda>t u. updateStateFromText u t) s0 vs"
  defines "s' \<equiv> updateStateFromText v s"
  shows "(edgeOn s' \<longleftrightarrow> edgeOn s \<or> (lastStateNum s = 0 \<and> lastStateNum s' = 1))
       \<and> (edgeOff s' \<longleftrightarrow> edgeOff s \<or> (lastStateNum s = 1 \<and> lastStateNum s' = 0))
       \<and> (lastStateNum s' = lastStateNum s \<longrightarrow>
            edgeOn s' = edgeOn s \<and> edgeOff s' = edgeOff s)
       \<and> (v \<notin> {''on'', ''1'', ''off'', ''0''} \<longrightarrow> lastStateNum s' = lastStateNum s)
       \<and> \<not> edgeOn (updateStateFromText v (snd (whenOn s')))
       \<and> \<not> edgeOff (updateStateFromText v (snd (whenOff s')))
       \<and> (v \<in> {''on'', ''1''} \<longrightarrow> lastStateNum s' = 1)
       \<and> (v \<in> {''off'', ''0''} \<longrightarrow> lastStateNum s' = 0)
       \<and> (edgeOn s' \<longleftrightarrow> edgeOn s \<or> (lastStateNum s = 0 \<and> v \<in> {''on'', ''1''}))
       \<and> (edgeOff s' \<longleftrightarrow> edgeOff s \<or> (lastStateNum s = 1 \<and> v \<in> {''off'', ''0''}))
       \<and> s' = s\<lparr>lastStateText := v, lastStateNum := lastStateNum s', edgeOn := edgeOn s',
                 edgeOff := edgeOff s', prevStateNum := lastStateNum s'\<rparr>"
proof -
  have a: "edgeOn s' \<longleftrightarrow> edgeOn s \<or> (lastStateNum s = 0 \<and> lastStateNum s' = 1)"
    unfolding s'_def by (rule updateStateFromText_edgeOn)
  have b: "edgeOff s' \<longleftrightarrow> edgeOff s \<or> (lastStateNum s = 1 \<and> lastStateNum s' = 0)"
    unfolding s'_def by (rule updateStateFromText_edgeOff)
  have c: "v \<notin> {''on'', ''1'', ''off'', ''0''} \<longrightarrow> lastStateNum s' = lastStateNum s"
    unfolding s'_def by (simp add: updateStateFromText_num)
  have d: "\<not> edgeOn (updateStateFromText v (snd (whenOn s')))"
    unfolding s'_def
    by (auto simp add: updateStateFromText_edgeOn updateStateFromText_num whenOn_def)
  have e: "\<not> edgeOff (updateStateFromText v (snd (whenOff s')))"
    unfolding s'_def
    by (auto simp add: updateStateFromText_edgeOff updateStateFromText_num whenOff_def)
  have f: "v \<in> {''on'', ''1''} \<longrightarrow> lastStateNum s' = 1"
    unfolding s'_def by (simp add: updateStateFromText_num)
  have g: "v \<in> {''off'', ''0''} \<longrightarrow> lastStateNum s' = 0"
    unfolding s'_def by (auto simp add: updateStateFromText_num)
  have h: "edgeOn s' \<longleftrightarrow> edgeOn s \<or> (lastStateNum s = 0 \<and> v \<in> {''on'', ''1''})"
    unfolding s'_def by (auto simp add: updateStateFromText_edgeOn updateStateFromText_num)
  have i: "edgeOff s' \<longleftrightarrow> edgeOff s \<or> (lastStateNum s = 1 \<and> v \<in> {''off'', ''0''})"
    unfolding s'_def by (auto simp add: updateStateFromText_edgeOff updateStateFromText_num)
  have j: "s' = s\<lparr>lastStateText := v, lastStateNum := lastStateNum s', edgeOn := edgeOn s',
                 edgeOff := edgeOff s', prevStateNum := lastStateNum s'\<rparr>"
    unfolding s'_def by (rule updateStateFromText_frame)
  from a b have ab: "lastStateNum s' = lastStateNum s \<longrightarrow>
            edgeOn s' = edgeOn s \<and> edgeOff s' = edgeOff s" by auto
  from a b ab c d e f g h i j show ?thesis by (intro conjI)
qed

text \<open>From the initial state: "on" after "off", and "1" after "0", set the rising edge
  and not the falling one; "off" after "on", and "0" after "1", set the falling edge; an
  unrecognised "zz" after "on" leaves the number 1 and the falling edge clear.\<close>

theorem updateStateFromText_edges_witness:
  "''on'' \<in> {''on'', ''1''} \<and> ''1'' \<in> {''on'', ''1''}
   \<and> ''off'' \<in> {''off'', ''0''} \<and> ''0'' \<in> {''off'', ''0''}
   \<and> ''zz'' \<notin> {''on'', ''1'', ''off'', ''0''}
   \<and> lastStateNum (foldl (\<lambda>t u. updateStateFromText u t) idle [''off'']) = 0
   \<and> edgeOn (updateStateFromText ''on'' (foldl (\<lambda>t u. updateStateFromText u t) idle [''off'']))
   \<and> \<not> edgeOff (updateStateFromText ''on'' (foldl (\<lambda>t u. updateStateFromText u t) idle [''off'']))
   \<and> lastStateNum (foldl (\<lambda>t u. updateStateFromText u t) idle [''on'']) = 1
   \<and> edgeOff (updateStateFromText ''off'' (foldl (\<lambda>t u. updateStateFromText u t) idle [''on'']))
   \<and> lastStateNum (updateStateFromText ''off'' (foldl (\<lambda>t u. updateStateFromText u t) idle [''on''])) = 0
   \<and> edgeOn (updateStateFromText ''1'' (foldl (\<lambda>t u. updateStateFromText u t) idle [''0'']))
   \<and> edgeOff (updateStateFromText ''0'' (foldl (\<lambda>t u. updateStateFromText u t) idle [''1'']))
   \<and> lastStateNum (updateStateFromText ''zz'' (foldl (\<lambda>t u. updateStateFromText u t) idle [''on''])) = 1
   \<and> edgeOff (updateStateFromText ''zz'' (foldl (\<lambda>t u. updateStateFromText u t) idle [''on'']))
       = edgeOff (foldl (\<lambda>t u. updateStateFromText u t) idle [''on''])
   \<and> \<not> edgeOff (foldl (\<lambda>t u. updateStateFromText u t) idle [''on''])"
proof -
  let ?off = "foldl (\<lambda>t u. updateStateFromText u t) idle [''off'']"
  let ?on = "foldl (\<lambda>t u. updateStateFromText u t) idle [''on'']"
  let ?zero = "foldl (\<lambda>t u. updateStateFromText u t) idle [''0'']"
  let ?one = "foldl (\<lambda>t u. updateStateFromText u t) idle [''1'']"
  have m: "''on'' \<in> {''on'', ''1''}" "''1'' \<in> {''on'', ''1''}"
    "''off'' \<in> {''off'', ''0''}" "''0'' \<in> {''off'', ''0''}"
    "''zz'' \<notin> {''on'', ''1'', ''off'', ''0''}"
    by simp_all
  have i: "lastStateNum idle = 0" "\<not> edgeOn idle" "\<not> edgeOff idle"
    by (simp_all add: idle_def fresh_def initial_def)
  from updateStateFromText_edges [of "''off''" idle "[]"] m(3) i(1,3)
  have off: "lastStateNum ?off = 0" "\<not> edgeOff ?off" by simp_all
  from updateStateFromText_edges [of "''0''" idle "[]"] m(4) i(1,3)
  have zero: "lastStateNum ?zero = 0" by simp
  from updateStateFromText_edges [of "''on''" idle "[]"] m(1) i(3)
  have on: "lastStateNum ?on = 1" "\<not> edgeOff ?on" by simp_all
  from updateStateFromText_edges [of "''1''" idle "[]"] m(2)
  have one: "lastStateNum ?one = 1" by simp
  from updateStateFromText_edges [of "''on''" idle "[''off'']"] m(1) off
  have r: "edgeOn (updateStateFromText ''on'' ?off)"
    "\<not> edgeOff (updateStateFromText ''on'' ?off)"
    by simp_all
  from updateStateFromText_edges [of "''off''" idle "[''on'']"] m(3) on
  have f: "edgeOff (updateStateFromText ''off'' ?on)"
    "lastStateNum (updateStateFromText ''off'' ?on) = 0"
    by simp_all
  from updateStateFromText_edges [of "''1''" idle "[''0'']"] m(2) zero
  have r1: "edgeOn (updateStateFromText ''1'' ?zero)" by simp
  from updateStateFromText_edges [of "''0''" idle "[''1'']"] m(4) one
  have f0: "edgeOff (updateStateFromText ''0'' ?one)" by simp
  from updateStateFromText_edges [of "''zz''" idle "[''on'']"] m(5)
  have k: "lastStateNum (updateStateFromText ''zz'' ?on) = lastStateNum ?on"
    by blast
  with updateStateFromText_edges [of "''zz''" idle "[''on'']"]
  have e: "edgeOff (updateStateFromText ''zz'' ?on) = edgeOff ?on"
    by blast
  from m off(1) r on f r1 f0 k e show ?thesis by simp
qed

subsection \<open>C2: capacity of the send queue\<close>

text \<open>
  C2. While not connected and with \<^verbatim>\<open>wantReconnect\<close> set, sending \<open>QUEUE_MAX + k\<close>
  tokens, \<open>k \<ge> 1\<close>, to a queue of at most \<open>QUEUE_MAX\<close> entries leaves exactly the last
  \<open>QUEUE_MAX = 20\<close> of them, in their order. No call of \<open>sendAscii\<close>, in any state, takes
  the queue from at most \<open>QUEUE_MAX\<close> entries to more; a token that arrives at a full
  queue evicts the first, that is, the oldest entry; and in every reachable state the
  queue has at most \<open>QUEUE_MAX\<close> entries, so that there the first statement holds
  whatever was queued before.
\<close>

theorem sendQueue_keeps_newest:
  "QUEUE_MAX = 20
   \<and> (\<not> connected s \<and> wantReconnect s \<and> length (sendQueue s) \<le> QUEUE_MAX
        \<and> length ts = QUEUE_MAX + k \<and> 1 \<le> k \<longrightarrow>
        sendQueue (send_all ts s) = drop k ts \<and> length (sendQueue (send_all ts s)) = QUEUE_MAX)
   \<and> (length (sendQueue s) \<le> QUEUE_MAX \<longrightarrow>
        length (sendQueue (snd (sendAscii tok s))) \<le> QUEUE_MAX)
   \<and> (\<not> connected s \<and> wantReconnect s \<and> length (sendQueue s) = QUEUE_MAX \<longrightarrow>
        sendQueue (snd (sendAscii tok s)) = tl (sendQueue s) @ [tok])
   \<and> (reachable s \<longrightarrow> length (sendQueue s) \<le> QUEUE_MAX)
   \<and> (reachable s \<and> \<not> connected s \<and> wantReconnect s
        \<and> length ts = QUEUE_MAX + k \<and> 1 \<le> k \<longrightarrow>
        sendQueue (send_all ts s) = drop k ts)"
proof -
  have d: "length (sendQueue s) \<le> QUEUE_MAX" if "reachable s"
    using reachable_link_inv [OF that] by (simp add: link_inv_def)
  have a: "sendQueue (send_all ts s) = drop k ts \<and> length (sendQueue (send_all ts s)) = QUEUE_MAX"
    if h: "\<not> connected s" "wantReconnect s" "length (sendQueue s) \<le> QUEUE_MAX"
      "length ts = QUEUE_MAX + k" "1 \<le> k"
  proof -
    have "sendQueue (send_all ts s) =
        drop (length (sendQueue s @ ts) - QUEUE_MAX) (sendQueue s @ ts)"
      using send_all_queue [OF h(1,2,3)] by simp
    also have "\<dots> = drop k ts" using h(4) by simp
    finally show ?thesis using h(4) by simp
  qed
  have b: "length (sendQueue (snd (sendAscii tok s))) \<le> QUEUE_MAX"
    if "length (sendQueue s) \<le> QUEUE_MAX"
    using that
    by (auto simp add: sendAscii_def Let_def writeValue_def transport_def QUEUE_MAX_def
        split: option.splits)
  have c: "sendQueue (snd (sendAscii tok s)) = tl (sendQueue s) @ [tok]"
    if "\<not> connected s" "wantReconnect s" "length (sendQueue s) = QUEUE_MAX"
    using that by (simp add: sendAscii_queue)
  from a b c d show ?thesis by (simp add: QUEUE_MAX_def)
qed

text \<open>Twenty-one tokens sent while automatic reconnection is on and nothing is connected:
  the first one, A, is gone and B to U remain; one more token evicts B.\<close>

theorem sendQueue_keeps_newest_witness:
  "reachable armed \<and> \<not> connected armed \<and> wantReconnect armed
   \<and> length (sendQueue armed) \<le> QUEUE_MAX
   \<and> length letters = QUEUE_MAX + 1
   \<and> sendQueue (send_all letters armed) = tl letters
   \<and> length (sendQueue (send_all letters armed)) = QUEUE_MAX
   \<and> \<not> connected (send_all letters armed) \<and> wantReconnect (send_all letters armed)
   \<and> sendQueue (snd (sendAscii ''V'' (send_all letters armed))) = tl (tl letters) @ [''V'']"
proof -
  have h: "\<not> connected armed" "wantReconnect armed" "length (sendQueue armed) \<le> QUEUE_MAX"
    "length letters = QUEUE_MAX + 1"
    by (simp_all add: armed_facts letters_def QUEUE_MAX_def del: upt_Suc)
  from sendQueue_keeps_newest [of armed letters 1 "''V''"] reachable_armed h
  have q: "sendQueue (send_all letters armed) = drop 1 letters"
    and l: "length (sendQueue (send_all letters armed)) = QUEUE_MAX"
    by simp_all
  from send_all_queue [OF h(1,2,3), of letters]
  have f: "\<not> connected (send_all letters armed)" "wantReconnect (send_all letters armed)"
    by simp_all
  from sendQueue_keeps_newest [of "send_all letters armed" "[]" 0 "''V''"] f l
  have "sendQueue (snd (sendAscii ''V'' (send_all letters armed)))
      = tl (sendQueue (send_all letters armed)) @ [''V'']"
    by simp
  with reachable_armed h q l f show ?thesis by (simp add: drop_Suc)
qed

subsection \<open>C3: the three cases of sending\<close>

text \<open>
  C3, as stated, fails: \<open>sendAscii\<close> asks for the write channel as well as for the
  \<^verbatim>\<open>connected\<close> flag, and the program gets into a state in which the flag is set and the
  channel is null. The timer's \<^verbatim>\<open>reconnect\<close> to the second relay is suspended in
  \<^verbatim>\<open>setupGatt\<close>; meanwhile \<^verbatim>\<open>connectById("a")\<close> makes the first relay the active device
  and \<^verbatim>\<open>disconnect()\<close> clears \<^verbatim>\<open>rxChar\<close>; then the suspended call goes on and
  \<^verbatim>\<open>onConnected\<close> sets \<^verbatim>\<open>connected\<close>. There \<open>sendAscii\<close> throws the "not connected" error
  and writes nothing.
\<close>

theorem sendAscii_three_cases_counterexample:
  "overlapped None astray
   \<and> (schedule race None links_lost = Some (None, astray)
      \<and> connected astray \<and> rxChar astray = None
      \<and> sendAscii ''1'' astray = (Inl (Err ''Error'' msg_not_connected), astray)
      \<and> trace (snd (sendAscii ''1'' astray)) = trace astray)"
proof (rule conjI [OF overlapped_astray])
  have "sendAscii ''1'' astray = (Inl (Err ''Error'' msg_not_connected), astray)"
    using astray_facts by (simp add: sendAscii_def)
  with race_astray astray_facts
  show "schedule race None links_lost = Some (None, astray)
      \<and> connected astray \<and> rxChar astray = None
      \<and> sendAscii ''1'' astray = (Inl (Err ''Error'' msg_not_connected), astray)
      \<and> trace (snd (sendAscii ''1'' astray)) = trace astray"
    by simp
qed

text \<open>
  C3, amended. \<open>sendAscii\<close> of any token does one of three things. When connected and
  the write channel is there, it calls \<^verbatim>\<open>writeValue\<close> on the channel at once, and leaves
  the queue alone. Otherwise, that is, when not connected or without a write channel: if
  \<^verbatim>\<open>wantReconnect\<close> is set it appends the token to the queue, taking the oldest entry out
  first at capacity, calls \<open>scheduleReconnect\<close>, returns without an error and calls
  nothing of the transport; if \<^verbatim>\<open>wantReconnect\<close> is clear it throws the "not connected"
  error and changes nothing.
\<close>

theorem sendAscii_three_cases:
  "(connected s \<and> rxChar s = Some h \<longrightarrow>
      sendAscii tok s = transport (WriteValue h tok) s
      \<and> trace (snd (sendAscii tok s)) = trace s @ [WriteValue h tok]
      \<and> sendQueue (snd (sendAscii tok s)) = sendQueue s)
   \<and> ((\<not> connected s \<or> rxChar s = None) \<and> wantReconnect s \<longrightarrow>
      sendAscii tok s =
        (Inr (), scheduleReconnect
           (s\<lparr>sendQueue := (if QUEUE_MAX \<le> length (sendQueue s)
                             then tl (sendQueue s) else sendQueue s) @ [tok]\<rparr>))
      \<and> trace (snd (sendAscii tok s)) = trace s)
   \<and> ((\<not> connected s \<or> rxChar s = None) \<and> \<not> wantReconnect s \<longrightarrow>
      sendAscii tok s = (Inl (Err ''Error'' msg_not_connected), s))"
proof -
  have a: "sendAscii tok s = transport (WriteValue h tok) s
      \<and> trace (snd (sendAscii tok s)) = trace s @ [WriteValue h tok]
      \<and> sendQueue (snd (sendAscii tok s)) = sendQueue s"
    if "connected s" "rxChar s = Some h"
    using that by (simp add: sendAscii_def writeValue_def transport_def split: option.splits)
  have b: "sendAscii tok s =
        (Inr (), scheduleReconnect
           (s\<lparr>sendQueue := (if QUEUE_MAX \<le> length (sendQueue s)
                             then tl (sendQueue s) else sendQueue s) @ [tok]\<rparr>))
      \<and> trace (snd (sendAscii tok s)) = trace s"
    if "\<not> connected s \<or> rxChar s = None" "wantReconnect s"
    using that by (auto simp add: sendAscii_def scheduleReconnect_def Let_def)
  have c: "sendAscii tok s = (Inl (Err ''Error'' msg_not_connected), s)"
    if "\<not> connected s \<or> rxChar s = None" "\<not> wantReconnect s"
    using that by (auto simp add: sendAscii_def)
  from a b c show ?thesis by blast
qed

text \<open>The three cases in the example world: connected to the first relay; its link ended
  while \<^verbatim>\<open>wantReconnect\<close> is set; the module as it starts; and \<open>astray\<close>, connected but
  without a write channel, with automatic reconnection switched on again.\<close>

theorem sendAscii_three_cases_witness:
  "connected linked \<and> rxChar linked = Some 1
   \<and> sendAscii ''t'' linked = (Inr (), linked\<lparr>trace := trace linked @ [WriteValue 1 ''t'']\<rparr>)
   \<and> \<not> connected dropped \<and> wantReconnect dropped
   \<and> fst (sendAscii ''t'' dropped) = Inr ()
   \<and> sendQueue (snd (sendAscii ''t'' dropped)) = [''t'']
   \<and> trace (snd (sendAscii ''t'' dropped)) = trace dropped
   \<and> \<not> connected idle \<and> \<not> wantReconnect idle
   \<and> sendAscii ''t'' idle = (Inl (Err ''Error'' msg_not_connected), idle)
   \<and> connected (setReconnect True astray) \<and> rxChar (setReconnect True astray) = None
   \<and> wantReconnect (setReconnect True astray)
   \<and> fst (sendAscii ''t'' (setReconnect True astray)) = Inr ()
   \<and> sendQueue (snd (sendAscii ''t'' (setReconnect True astray))) = [''t'']
   \<and> trace (snd (sendAscii ''t'' (setReconnect True astray))) = trace astray"
proof -
  let ?w = "setReconnect True astray"
  have l: "connected linked" "rxChar linked = Some 1"
    "io_result linked (length (trace linked)) = None"
    by (simp_all add: linked_def scanned_a_def world_defs)
  have d: "\<not> connected dropped" "wantReconnect dropped" "sendQueue dropped = []"
    by (simp_all add: dropped_def eval_defs linked_def scanned_a_def world_defs)
  have i: "\<not> connected idle" "\<not> wantReconnect idle"
    by (simp_all add: world_defs)
  have w: "connected ?w" "rxChar ?w = None" "wantReconnect ?w" "sendQueue ?w = []"
    "trace ?w = trace astray"
    using astray_facts by (simp_all add: setReconnect_def Let_def)
  from sendAscii_three_cases [of linked 1 "''t''"] l
  have a: "sendAscii ''t'' linked =
      (Inr (), linked\<lparr>trace := trace linked @ [WriteValue 1 ''t'']\<rparr>)"
    by (simp add: transport_def)
  from sendAscii_three_cases [of dropped 1 "''t''"] d
  have b: "fst (sendAscii ''t'' dropped) = Inr ()"
    "sendQueue (snd (sendAscii ''t'' dropped)) = [''t'']"
    "trace (snd (sendAscii ''t'' dropped)) = trace dropped"
    by (simp_all add: QUEUE_MAX_def)
  from sendAscii_three_cases [of idle 1 "''t''"] i
  have c: "sendAscii ''t'' idle = (Inl (Err ''Error'' msg_not_connected), idle)"
    by simp
  from sendAscii_three_cases [of ?w 1 "''t''"] w
  have e: "fst (sendAscii ''t'' ?w) = Inr ()"
    "sendQueue (snd (sendAscii ''t'' ?w)) = [''t'']"
    "trace (snd (sendAscii ''t'' ?w)) = trace astray"
    by (simp_all add: QUEUE_MAX_def)
  from l(1,2) a d(1,2) b i c w(1,2,3) e
  show ?thesis by simp
qed

subsection \<open>C4: draining the queue on connection\<close>



subsection \<open>C5: reconnect while a reconnect is in flight\<close>

text \<open>
  C5. With no active device \<open>reconnect\<close> throws the "no previously connected device"
  error. With the \<^verbatim>\<open>connecting\<close> flag set, or with the device's GATT session live, it
  returns at once and changes nothing, so it calls nothing of the transport. A call that
  gets past both guards is suspended at \<^verbatim>\<open>gatt.connect()\<close> in the state
  \<open>reconnect_pending\<close>: the flag is set and one connect has been issued. A second call
  in that state returns at once and leaves the state as it is, and the first call, going
  on from there to its end, issues no further connect: the two calls together make one
  \<^verbatim>\<open>gatt.connect()\<close>.
\<close>

theorem reconnect_idempotent:
  "(device s = None \<longrightarrow> reconnect s = Some (Inl (Err ''Error'' msg_no_device), s))
   \<and> (device s = Some d \<and> (connecting s \<or> gatt_connected (heap s d)) \<longrightarrow>
        reconnect s = Some (Inr (), s))
   \<and> (device s = Some d \<and> \<not> connecting s \<and> \<not> gatt_connected (heap s d) \<longrightarrow>
        connecting (reconnect_pending d s)
        \<and> trace (reconnect_pending d s) = trace s @ [GattConnect d]
        \<and> reconnect (reconnect_pending d s) = Some (Inr (), reconnect_pending d s)
        \<and> (\<exists>r s'. gattConnect_settled d (length (trace s)) (reconnect_pending d s) = Some (r, s')
                  \<and> reconnect s = Some (r, s'\<lparr>connecting := False\<rparr>)
                  \<and> connect_calls (trace s') = connect_calls (trace s) + 1))"
proof -
  have a: "reconnect s = Some (Inl (Err ''Error'' msg_no_device), s)" if "device s = None"
    using that by (simp add: reconnect_def)
  have b: "reconnect s = Some (Inr (), s)"
    if "device s = Some d" "connecting s \<or> gatt_connected (heap s d)"
    using that by (auto simp add: reconnect_def)
  have c: "connecting (reconnect_pending d s)
        \<and> trace (reconnect_pending d s) = trace s @ [GattConnect d]
        \<and> reconnect (reconnect_pending d s) = Some (Inr (), reconnect_pending d s)
        \<and> (\<exists>r s'. gattConnect_settled d (length (trace s)) (reconnect_pending d s) = Some (r, s')
                  \<and> reconnect s = Some (r, s'\<lparr>connecting := False\<rparr>)
                  \<and> connect_calls (trace s') = connect_calls (trace s) + 1)"
    if h: "device s = Some d" "\<not> connecting s" "\<not> gatt_connected (heap s d)"
  proof -
    let ?p = "reconnect_pending d s"
    have p: "connecting ?p" "trace ?p = trace s @ [GattConnect d]" "device ?p = Some d"
      using h by (simp_all add: reconnect_pending_def gattConnect_issue_def)
    have second: "reconnect ?p = Some (Inr (), ?p)"
      using p by (simp add: reconnect_def)
    obtain r s' where g: "gattConnect_settled d (length (trace s)) ?p = Some (r, s')"
      using gattConnect_settled_total by blast
    from gattConnect_settled_frame [OF g] p
    have n: "connect_calls (trace s') = connect_calls (trace s) + 1"
      by (simp add: connect_calls_def)
    from h g have "reconnect s = Some (r, s'\<lparr>connecting := False\<rparr>)"
      by (simp add: reconnect_def)
    with p second g n show ?thesis by blast
  qed
  from a b c show ?thesis by blast
qed

text \<open>In the example world: no device in the initial state; a live session after the
  button connected the first relay; and, after that link ended, a first call that is
  pending and a second one that does nothing.\<close>

theorem reconnect_idempotent_witness:
  "device idle = None \<and> reconnect idle = Some (Inl (Err ''Error'' msg_no_device), idle)
   \<and> device linked = Some 1 \<and> gatt_connected (heap linked 1)
   \<and> reconnect linked = Some (Inr (), linked)
   \<and> device dropped = Some 1 \<and> \<not> connecting dropped \<and> \<not> gatt_connected (heap dropped 1)
   \<and> connecting (reconnect_pending 1 dropped)
   \<and> trace (reconnect_pending 1 dropped) = trace dropped @ [GattConnect 1]
   \<and> reconnect (reconnect_pending 1 dropped) = Some (Inr (), reconnect_pending 1 dropped)
   \<and> (\<exists>r s'. reconnect dropped = Some (r, s'\<lparr>connecting := False\<rparr>)
          \<and> connect_calls (trace s') = connect_calls (trace dropped) + 1)"
proof -
  have i: "device idle = None" by (simp add: world_defs)
  have l: "device linked = Some 1" "gatt_connected (heap linked 1)"
    by (simp_all add: linked_def scanned_a_def world_defs)
  from reconnect_idempotent [of idle 1] i
  have a: "reconnect idle = Some (Inl (Err ''Error'' msg_no_device), idle)" by simp
  from reconnect_idempotent [of linked 1] l
  have b: "reconnect linked = Some (Inr (), linked)" by simp
  from reconnect_idempotent [of dropped 1] dropped_facts(1,2,3)
  have c: "connecting (reconnect_pending 1 dropped)"
    "trace (reconnect_pending 1 dropped) = trace dropped @ [GattConnect 1]"
    "reconnect (reconnect_pending 1 dropped) = Some (Inr (), reconnect_pending 1 dropped)"
    "\<exists>r s'. reconnect dropped = Some (r, s'\<lparr>connecting := False\<rparr>)
          \<and> connect_calls (trace s') = connect_calls (trace dropped) + 1"
    by blast+
  from i a l b dropped_facts(1,2,3) c show ?thesis by blast
qed

subsection \<open>C6: backoff of the reconnect timer\<close>

text \<open>
  C6. The ceiling is 15000. When the \<open>reconnect\<close> of a timer firing fails, the firing
  ends with \<open>backoffMs\<close> at \<open>min (2 * backoffMs) 15000\<close>; after \<open>n \<ge> 1\<close> failing
  firings in a row it is \<open>min (2 ^ n * backoffMs) 15000\<close>. \<open>onConnected\<close> always leaves
  \<open>backoffMs\<close> at 1000 (and it does return whenever the write channel is set), and so
  does a timer firing whose \<open>reconnect\<close> connects.
\<close>

theorem backoff_doubles_then_resets:
  "backoffMax = 15000
   \<and> (reconnect (s\<lparr>reconnectTimer := None\<rparr>) = Some (Inl e, u) \<longrightarrow>
        (\<exists>s'. reconnectTimer_fire s = Some s'
              \<and> backoffMs s' = min (2 * backoffMs s) backoffMax))
   \<and> (failed_attempts n s = Some t \<longrightarrow>
        backoffMs t = (if n = 0 then backoffMs s else min (2 ^ n * backoffMs s) backoffMax))
   \<and> (onConnected s = Some s' \<longrightarrow> backoffMs s' = 1000)
   \<and> (rxChar s \<noteq> None \<longrightarrow> (\<exists>s'. onConnected s = Some s'))
   \<and> (device s = Some d \<and> \<not> connecting s \<and> \<not> gatt_connected (heap s d)
        \<and> reconnect (s\<lparr>reconnectTimer := None\<rparr>) = Some (Inr v, u) \<longrightarrow>
        reconnectTimer_fire s = Some u \<and> backoffMs u = 1000)"
proof -
  have c: "backoffMs s' = 1000" if "onConnected s = Some s'"
    using onConnected_frame [OF that] by simp
  have d: "reconnectTimer_fire s = Some u \<and> backoffMs u = 1000"
    if "device s = Some d" "\<not> connecting s" "\<not> gatt_connected (heap s d)"
      "reconnect (s\<lparr>reconnectTimer := None\<rparr>) = Some (Inr v, u)"
    using that reconnect_success_backoff [of "s\<lparr>reconnectTimer := None\<rparr>" v u d]
    by (simp add: reconnectTimer_fire_def)
  from c d reconnectTimer_fire_failure failed_attempts_backoff onConnected_total
  show ?thesis by (simp add: backoffMax_def)
qed

text \<open>With automatic reconnection on and no device to reconnect to, every firing fails:
  1000 becomes 2000 and then 4000. From 8000, one connection brings it back to 1000.\<close>

theorem backoff_doubles_then_resets_witness:
  "reachable armed \<and> backoffMs armed = 1000
   \<and> reconnect (armed\<lparr>reconnectTimer := None\<rparr>)
     = Some (Inl (Err ''Error'' msg_no_device), armed\<lparr>reconnectTimer := None\<rparr>)
   \<and> (\<exists>s'. reconnectTimer_fire armed = Some s' \<and> backoffMs s' = 2000)
   \<and> (\<exists>t. failed_attempts 2 armed = Some t \<and> backoffMs t = 4000)
   \<and> rxChar (three_queued\<lparr>backoffMs := 8000\<rparr>) \<noteq> None
   \<and> (\<exists>s'. onConnected (three_queued\<lparr>backoffMs := 8000\<rparr>) = Some s' \<and> backoffMs s' = 1000)
   \<and> device (dropped\<lparr>backoffMs := 8000\<rparr>) = Some 1
   \<and> \<not> connecting (dropped\<lparr>backoffMs := 8000\<rparr>)
   \<and> \<not> gatt_connected (heap (dropped\<lparr>backoffMs := 8000\<rparr>) 1)
   \<and> (\<exists>u. reconnect (dropped\<lparr>backoffMs := 8000, reconnectTimer := None\<rparr>) = Some (Inr (), u)
          \<and> reconnectTimer_fire (dropped\<lparr>backoffMs := 8000\<rparr>) = Some u \<and> backoffMs u = 1000)"
proof -
  let ?w = "armed"
  let ?d = "dropped\<lparr>backoffMs := 8000\<rparr>"
  let ?q = "three_queued\<lparr>backoffMs := 8000\<rparr>"
  have r1: "reconnect (?w\<lparr>reconnectTimer := None\<rparr>)
      = Some (Inl (Err ''Error'' msg_no_device), ?w\<lparr>reconnectTimer := None\<rparr>)"
    by (simp add: reconnect_def armed_facts)
  have b0: "backoffMs ?w = 1000" by (rule armed_facts)
  from backoff_doubles_then_resets [of ?w "Err ''Error'' msg_no_device"
      "?w\<lparr>reconnectTimer := None\<rparr>" 0 ?w ?w 1 "()"] r1 b0
  have a: "\<exists>s'. reconnectTimer_fire ?w = Some s' \<and> backoffMs s' = 2000"
    by (simp add: backoffMax_def)
  have "\<exists>t. failed_attempts 2 ?w = Some t"
    by (simp add: armed_def setReconnect_def eval_defs world_defs numeral_2_eq_2
        backoffMax_def)
  then obtain t where t: "failed_attempts 2 ?w = Some t" by blast
  from backoff_doubles_then_resets [of ?w "Err ''Error'' msg_no_device"
      "?w\<lparr>reconnectTimer := None\<rparr>" 2 t ?w 1 "()"] t b0
  have "backoffMs t = 4000" by (simp add: backoffMax_def)
  with t have b: "\<exists>t. failed_attempts 2 ?w = Some t \<and> backoffMs t = 4000" by blast
  have q: "rxChar ?q \<noteq> None" by (simp add: three_queued_def)
  from backoff_doubles_then_resets [of ?q "Str []" ?q 0 ?q _ 1 "()"] q
  obtain s' where s': "onConnected ?q = Some s'" by blast
  from backoff_doubles_then_resets [of ?q "Str []" ?q 0 ?q s' 1 "()"] s'
  have c: "\<exists>s'. onConnected ?q = Some s' \<and> backoffMs s' = 1000" by blast
  have d: "device ?d = Some 1" "\<not> connecting ?d" "\<not> gatt_connected (heap ?d 1)"
    using dropped_facts by simp_all
  have "\<exists>u. reconnect (?d\<lparr>reconnectTimer := None\<rparr>) = Some (Inr (), u)"
    by (simp add: dropped_def eval_defs linked_def scanned_a_def world_defs)
  then obtain u where u: "reconnect (?d\<lparr>reconnectTimer := None\<rparr>) = Some (Inr (), u)" by blast
  from backoff_doubles_then_resets [of ?d "Str []" u 0 ?d ?d 1 "()"] d u
  have e: "reconnectTimer_fire ?d = Some u \<and> backoffMs u = 1000" by simp
  from reachable_armed b0 r1 a b q c d u e show ?thesis by auto
qed

subsection \<open>C7: connecting by an id that is not remembered\<close>

text \<open>
  C7. Let \<open>s0\<close> be the state after \<open>connectById\<close> has cleared the error, set
  \<^verbatim>\<open>wantReconnect\<close> and stopped the reconnect timer. When the trimmed id is not in
  \<^verbatim>\<open>known\<close>, \<open>connectById\<close> always returns or throws (it does not hang), the first
  thing it asks of the transport is a scan with the name filters, and whatever it throws
  is a rejection that the transport gave: no "unknown id" error is made. What it does is
  \<open>requestAndConnect\<close> in \<open>s0\<close>; when that throws, the error is recorded and
  \<open>requestAndConnect\<close> is tried once more. When the id is remembered, the remembered
  device is made the active one and \<open>reconnect\<close> is called; only when \<open>reconnect\<close>
  throws does the scan follow.
\<close>

theorem connectById_unknown_falls_back:
  fixes s :: state and i :: string
  defines "s0 \<equiv> stopReconnectTimer ((clearError s)\<lparr>wantReconnect := True\<rparr>)"
  shows
  "(findById (js_trim i) s = None \<longrightarrow>
      (\<exists>r s'. connectById i s = Some (r, s')
          \<and> (\<exists>tr. trace s' = trace s @ RequestDevice NamePrefixFilters # tr)
          \<and> (\<forall>e. r = Inl e \<longrightarrow> (\<exists>m. io_result s m = Some e \<or> scan_result s m = Inl e)))
      \<and> (\<forall>u s1. requestAndConnect s0 = Some (Inr u, s1) \<longrightarrow>
            connectById i s = Some (Inr u, s1))
      \<and> (\<forall>e s1. requestAndConnect s0 = Some (Inl e, s1) \<longrightarrow>
            connectById i s =
              (case requestAndConnect (setError e s1) of
                 None \<Rightarrow> None
               | Some (Inr u, s2) \<Rightarrow> Some (Inr u, s2)
               | Some (Inl ee, s2) \<Rightarrow> Some (Inl ee, setError ee s2))))
   \<and> (findById (js_trim i) s = Some dev \<longrightarrow>
      (\<forall>u s2. reconnect (s0\<lparr>device := Some dev, deviceName := dev_name (heap s dev),
                            deviceId := dev_id (heap s dev)\<rparr>) = Some (Inr u, s2) \<longrightarrow>
            connectById i s = Some (Inr u, s2))
      \<and> (\<forall>e s2. reconnect (s0\<lparr>device := Some dev, deviceName := dev_name (heap s dev),
                            deviceId := dev_id (heap s dev)\<rparr>) = Some (Inl e, s2) \<longrightarrow>
            connectById i s =
              (case requestAndConnect (setError e s2) of
                 None \<Rightarrow> None
               | Some (Inr u, s3) \<Rightarrow> Some (Inr u, s3)
               | Some (Inl ee, s3) \<Rightarrow> Some (Inl ee, setError ee s3))))"
proof -
  have a2: "connectById i s = Some (Inr u, s1)"
    if "findById (js_trim i) s = None" "requestAndConnect s0 = Some (Inr u, s1)" for u s1
    using that by (simp add: connectById_def Let_def s0_def)
  have a3: "connectById i s =
              (case requestAndConnect (setError e s1) of
                 None \<Rightarrow> None
               | Some (Inr u, s2) \<Rightarrow> Some (Inr u, s2)
               | Some (Inl ee, s2) \<Rightarrow> Some (Inl ee, setError ee s2))"
    if "findById (js_trim i) s = None" "requestAndConnect s0 = Some (Inl e, s1)" for e s1
    using that by (simp add: connectById_def Let_def s0_def)
  have a1: "\<exists>r s'. connectById i s = Some (r, s')
          \<and> (\<exists>tr. trace s' = trace s @ RequestDevice NamePrefixFilters # tr)
          \<and> (\<forall>e. r = Inl e \<longrightarrow> (\<exists>m. io_result s m = Some e \<or> scan_result s m = Inl e))"
    if n: "findById (js_trim i) s = None"
  proof -
    obtain r1 s1 where f: "requestAndConnect s0 = Some (r1, s1)"
      using requestAndConnect_total by blast
    from requestAndConnect_trace [OF f] obtain tr1 where
      t1: "trace s1 = trace s @ RequestDevice NamePrefixFilters # tr1"
      and e1: "scan_result s1 = scan_result s" "io_result s1 = io_result s"
      by (auto simp add: s0_def)
    show ?thesis
    proof (cases r1)
      case (Inr u)
      with a2 [OF n] f t1 show ?thesis by auto
    next
      case (Inl e)
      obtain r2 s2 where g: "requestAndConnect (setError e s1) = Some (r2, s2)"
        using requestAndConnect_total by blast
      from requestAndConnect_trace [OF g] t1 e1 obtain tr2 where
        t2: "trace s2 = trace s @ RequestDevice NamePrefixFilters # tr2"
        and x2: "\<forall>e. r2 = Inl e \<longrightarrow> (\<exists>m. io_result s m = Some e \<or> scan_result s m = Inl e)"
        by auto
      from a3 [OF n] f Inl g have
        "connectById i s = (case r2 of Inr u \<Rightarrow> Some (Inr u, s2)
                             | Inl ee \<Rightarrow> Some (Inl ee, setError ee s2))"
        by (simp split: sum.splits)
      with t2 x2 show ?thesis by (cases r2) auto
    qed
  qed
  have b1: "connectById i s = Some (Inr u, s2)"
    if "findById (js_trim i) s = Some dev"
      "reconnect (s0\<lparr>device := Some dev, deviceName := dev_name (heap s dev),
                            deviceId := dev_id (heap s dev)\<rparr>) = Some (Inr u, s2)" for u s2
    using that by (simp add: connectById_def Let_def s0_def)
  have b2: "connectById i s =
              (case requestAndConnect (setError e s2) of
                 None \<Rightarrow> None
               | Some (Inr u, s3) \<Rightarrow> Some (Inr u, s3)
               | Some (Inl ee, s3) \<Rightarrow> Some (Inl ee, setError ee s3))"
    if "findById (js_trim i) s = Some dev"
      "reconnect (s0\<lparr>device := Some dev, deviceName := dev_name (heap s dev),
                            deviceId := dev_id (heap s dev)\<rparr>) = Some (Inl e, s2)" for e s2
    using that by (simp add: connectById_def Let_def s0_def)
  from a1 a2 a3 b1 b2 show ?thesis by blast
qed

text \<open>An unknown id in the initial state ends like the connect button. With a chooser
  that is cancelled twice, the second \<open>requestAndConnect\<close> connects. A remembered id
  reconnects its relay without a scan; when that connect is rejected, the scan follows
  and the second relay is chosen.\<close>

theorem connectById_unknown_falls_back_witness:
  "findById (js_trim ''zz'') idle = None
   \<and> connectById ''zz'' idle = Some (Inr (), linked)
   \<and> findById (js_trim ''zz'') cancelled_twice = None
   \<and> (\<exists>s'. connectById ''zz'' cancelled_twice = Some (Inr (), s') \<and> device s' = Some 1
          \<and> take 3 (trace s') = [RequestDevice NamePrefixFilters, RequestDevice AcceptAllDevices,
                                  RequestDevice NamePrefixFilters])
   \<and> findById (js_trim ''a'') both_known = Some 1
   \<and> (\<exists>s'. connectById ''a'' both_known = Some (Inr (), s') \<and> device s' = Some 1
          \<and> connected s' \<and> drop 13 (trace s') = [GattConnect 1,
                  GetPrimaryService 1 NUS_SERVICE, GetCharacteristic 1 NUS_RX_CHAR,
                  GetCharacteristic 1 NUS_TX_CHAR, StartNotifications 1])
   \<and> findById (js_trim ''a'') connect_13_fails = Some 1
   \<and> (\<exists>s'. connectById ''a'' connect_13_fails = Some (Inr (), s') \<and> device s' = Some 2
          \<and> take 2 (drop 13 (trace s')) = [GattConnect 1, RequestDevice NamePrefixFilters])"
proof -
  let ?p = "\<lambda>s. stopReconnectTimer ((clearError s)\<lparr>wantReconnect := True\<rparr>)"
  have f: "findById (js_trim ''zz'') idle = None"
    "findById (js_trim ''zz'') cancelled_twice = None"
    "findById (js_trim ''a'') both_known = Some 1"
    "findById (js_trim ''a'') connect_13_fails = Some 1"
    by (simp_all add: trim_zz trim_abc findById_def world_defs cancelled_twice_def
        connect_13_fails_def both_known_def eval_defs scanned_ac_def linked_def scanned_a_def)
  have r1: "requestAndConnect (?p idle) = Some (Inr (), linked)"
    by (simp add: eval_defs linked_def scanned_a_def world_defs)
  from connectById_unknown_falls_back [of "''zz''" idle 1] f(1) r1
  have a: "connectById ''zz'' idle = Some (Inr (), linked)" by blast
  have "\<exists>e s1. requestAndConnect (?p cancelled_twice) = Some (Inl e, s1)
      \<and> (\<exists>s'. requestAndConnect (setError e s1) = Some (Inr (), s') \<and> device s' = Some 1
          \<and> take 3 (trace s') = [RequestDevice NamePrefixFilters, RequestDevice AcceptAllDevices,
                                  RequestDevice NamePrefixFilters])"
    by (simp add: cancelled_twice_def eval_defs initial_def two_relays_def)
  then obtain e s1 s' where r2: "requestAndConnect (?p cancelled_twice) = Some (Inl e, s1)"
    and r2': "requestAndConnect (setError e s1) = Some (Inr (), s')" "device s' = Some 1"
      "take 3 (trace s') = [RequestDevice NamePrefixFilters, RequestDevice AcceptAllDevices,
                                  RequestDevice NamePrefixFilters]"
    by blast
  from connectById_unknown_falls_back [of "''zz''" cancelled_twice 1] f(2) r2
  have "connectById ''zz'' cancelled_twice =
      (case requestAndConnect (setError e s1) of
                 None \<Rightarrow> None
               | Some (Inr u, s2) \<Rightarrow> Some (Inr u, s2)
               | Some (Inl ee, s2) \<Rightarrow> Some (Inl ee, setError ee s2))"
    by blast
  with r2' have b: "\<exists>s'. connectById ''zz'' cancelled_twice = Some (Inr (), s') \<and> device s' = Some 1
          \<and> take 3 (trace s') = [RequestDevice NamePrefixFilters, RequestDevice AcceptAllDevices,
                                  RequestDevice NamePrefixFilters]"
    by simp
  let ?a = "\<lambda>s. (?p s)\<lparr>device := Some 1, deviceName := dev_name (heap s 1),
                            deviceId := dev_id (heap s 1)\<rparr>"
  have "\<exists>s2. reconnect (?a both_known) = Some (Inr (), s2) \<and> device s2 = Some 1
          \<and> connected s2 \<and> drop 13 (trace s2) = [GattConnect 1,
                  GetPrimaryService 1 NUS_SERVICE, GetCharacteristic 1 NUS_RX_CHAR,
                  GetCharacteristic 1 NUS_TX_CHAR, StartNotifications 1]"
    by (simp add: both_known_def eval_defs scanned_ac_def linked_def scanned_a_def world_defs)
  then obtain s2 where r3: "reconnect (?a both_known) = Some (Inr (), s2)"
    and r3': "device s2 = Some 1" "connected s2" "drop 13 (trace s2) = [GattConnect 1,
                  GetPrimaryService 1 NUS_SERVICE, GetCharacteristic 1 NUS_RX_CHAR,
                  GetCharacteristic 1 NUS_TX_CHAR, StartNotifications 1]"
    by blast
  from connectById_unknown_falls_back [of "''a''" both_known 1] f(3) r3
  have "connectById ''a'' both_known = Some (Inr (), s2)" by blast
  with r3' have c: "\<exists>s'. connectById ''a'' both_known = Some (Inr (), s') \<and> device s' = Some 1
          \<and> connected s' \<and> drop 13 (trace s') = [GattConnect 1,
                  GetPrimaryService 1 NUS_SERVICE, GetCharacteristic 1 NUS_RX_CHAR,
                  GetCharacteristic 1 NUS_TX_CHAR, StartNotifications 1]"
    by blast
  have "\<exists>e s2. reconnect (?a connect_13_fails) = Some (Inl e, s2)
      \<and> (\<exists>s'. requestAndConnect (setError e s2) = Some (Inr (), s') \<and> device s' = Some 2
          \<and> take 2 (drop 13 (trace s')) = [GattConnect 1, RequestDevice NamePrefixFilters])"
    by (simp add: connect_13_fails_def both_known_def eval_defs scanned_ac_def linked_def
        scanned_a_def world_defs)
  then obtain e4 s4 s4' where r4: "reconnect (?a connect_13_fails) = Some (Inl e4, s4)"
    and r4': "requestAndConnect (setError e4 s4) = Some (Inr (), s4')" "device s4' = Some 2"
      "take 2 (drop 13 (trace s4')) = [GattConnect 1, RequestDevice NamePrefixFilters]"
    by blast
  from connectById_unknown_falls_back [of "''a''" connect_13_fails 1] f(4) r4
  have "connectById ''a'' connect_13_fails =
      (case requestAndConnect (setError e4 s4) of
                 None \<Rightarrow> None
               | Some (Inr u, s3) \<Rightarrow> Some (Inr u, s3)
               | Some (Inl ee, s3) \<Rightarrow> Some (Inl ee, setError ee s3))"
    by blast
  with r4' have d: "\<exists>s'. connectById ''a'' connect_13_fails = Some (Inr (), s') \<and> device s' = Some 2
          \<and> take 2 (drop 13 (trace s')) = [GattConnect 1, RequestDevice NamePrefixFilters]"
    by simp
  from f a b c d show ?thesis by blast
qed

subsection \<open>C8: bulk dispatch keeps going after a failure\<close>

text \<open>
  C8, as stated, fails: with a and c remembered but not connected, b unknown and every
  transport call succeeding, \<^verbatim>\<open>bulkCsv("a,b,c", "OFF")\<close> writes "0" to a and to c, and the
  last error ends empty. The message about b was stored after a, and \<open>onConnected\<close>
  cleared it when c was connected.
\<close>

theorem bulkCsv_isolates_failures_counterexample:
  "reachable both_known
   \<and> (findById ''a'' both_known = Some 1 \<and> findById ''b'' both_known = None
      \<and> findById ''c'' both_known = Some 2
      \<and> map_option lastError (bulkCsv ascii_upper ''a,b,c'' ''OFF'' both_known) = Some []
      \<and> map_option trace (bulkCsv ascii_upper ''a,b,c'' ''OFF'' both_known)
        = Some (trace both_known @
                [GattConnect 1, GetPrimaryService 1 NUS_SERVICE,
                 GetCharacteristic 1 NUS_RX_CHAR, GetCharacteristic 1 NUS_TX_CHAR,
                 StartNotifications 1, WriteValue 1 ''0'',
                 GattConnect 2, GetPrimaryService 2 NUS_SERVICE,
                 GetCharacteristic 2 NUS_RX_CHAR, GetCharacteristic 2 NUS_TX_CHAR,
                 StartNotifications 2, WriteValue 2 ''0'']))"
proof (rule conjI [OF reachable_both_known])
  show "findById ''a'' both_known = Some 1 \<and> findById ''b'' both_known = None
      \<and> findById ''c'' both_known = Some 2
      \<and> map_option lastError (bulkCsv ascii_upper ''a,b,c'' ''OFF'' both_known) = Some []
      \<and> map_option trace (bulkCsv ascii_upper ''a,b,c'' ''OFF'' both_known)
        = Some (trace both_known @
                [GattConnect 1, GetPrimaryService 1 NUS_SERVICE,
                 GetCharacteristic 1 NUS_RX_CHAR, GetCharacteristic 1 NUS_TX_CHAR,
                 StartNotifications 1, WriteValue 1 ''0'',
                 GattConnect 2, GetPrimaryService 2 NUS_SERVICE,
                 GetCharacteristic 2 NUS_RX_CHAR, GetCharacteristic 2 NUS_TX_CHAR,
                 StartNotifications 2, WriteValue 2 ''0''])"
    by (simp add: bulkCsv_def trim_abc upper_OFF both_known_def eval_defs
        scanned_ac_def linked_def scanned_a_def world_defs msg_unknown_id_def)
qed

text \<open>
  C8, amended. \<open>bulkCsv\<close> always returns. It runs the loop over the trimmed, non-empty
  pieces of the trimmed list, in their order, with the upper-cased action. The loop over
  \<open>xs @ ys\<close> is the loop over \<open>xs\<close> and then the loop over \<open>ys\<close> from the state that
  \<open>xs\<close> left, whatever failed in \<open>xs\<close>. An id that \<open>connectSendById\<close> fails on, with
  \<open>e\<close>, leaves "ID ", the id, ": " and the text of \<open>e\<close> in the last error, replacing
  what was there, and the loop goes on with the next id; for an unknown id the text is
  "unknown ID: " and the id, and nothing else changes. An id that succeeds leaves the
  state \<open>connectSendById\<close> left. And an id whose device had to be connected, with nothing
  queued, leaves the last error empty when it succeeds: a connection clears what earlier
  ids stored. With tokens queued too, a connection that succeeds ends in the same state
  whatever the last error was before it.
\<close>

theorem bulkCsv_isolates_failures:
  "(\<exists>s'. bulkCsv up csv act s = Some s')
   \<and> (js_trim csv \<noteq> [] \<longrightarrow>
        bulkCsv up csv act s =
          bulk_loop (filter (\<lambda>i. i \<noteq> []) (map js_trim (js_split (js_trim csv))))
            (up (if act = [] then ''ON'' else act)) (clearError s))
   \<and> bulk_loop (xs @ ys) a s =
        (case bulk_loop xs a s of None \<Rightarrow> None | Some s1 \<Rightarrow> bulk_loop ys a s1)
   \<and> (findById i s = None \<longrightarrow>
        bulk_loop (i # ids) a s =
          bulk_loop ids a (s\<lparr>lastError := ''ID '' @ i @ '': '' @ msg_unknown_id @ i\<rparr>))
   \<and> (connectSendById i a s = Some (Inl e, s1) \<longrightarrow>
        bulk_loop (i # ids) a s =
          bulk_loop ids a (s1\<lparr>lastError := ''ID '' @ i @ '': '' @ message_or_self e\<rparr>))
   \<and> (connectSendById i a s = Some (Inr u, s1) \<longrightarrow>
        bulk_loop (i # ids) a s = bulk_loop ids a s1)
   \<and> (findById i s = Some dev
        \<and> (device s = None
           \<or> (\<exists>cur. device s = Some cur \<and> dev_id (heap s cur) \<noteq> dev_id (heap s dev)))
        \<and> \<not> gatt_connected (heap s dev) \<and> sendQueue s = []
        \<and> connectSendById i a s = Some (Inr u, s1) \<longrightarrow>
        lastError s1 = [])
   \<and> (connectAndSetup d s = Some (Inr u, s2) \<longrightarrow>
        connectAndSetup d (s\<lparr>lastError := x\<rparr>) = Some (Inr u, s2))"
proof -
  have c5: "lastError s1 = []"
    if h: "findById i s = Some dev"
      "device s = None \<or> (\<exists>cur. device s = Some cur \<and> dev_id (heap s cur) \<noteq> dev_id (heap s dev))"
      "\<not> gatt_connected (heap s dev)" "sendQueue s = []"
      "connectSendById i a s = Some (Inr u, s1)"
  proof -
    let ?sw = "s\<lparr>device := Some dev, deviceName := dev_name (heap s dev),
                  deviceId := dev_id (heap s dev)\<rparr>"
    obtain r2 s2 where cs: "connectAndSetup dev ?sw = Some (r2, s2)"
      using connectAndSetup_total by blast
    from h(5) cs connectSendById_switch [OF h(1,2,3), of a] obtain v where r2: "r2 = Inr v"
      by (cases r2) auto
    from connectAndSetup_success [of dev ?sw v s2] cs r2 h(4)
    have s2: "connected s2" "rxChar s2 = Some dev" "lastError s2 = []" by simp_all
    from h(5) cs r2 connectSendById_switch [OF h(1,2,3), of a]
    have "(Inr u, s1) = (if a = ''ON'' then sendAscii ''1'' s2
                else if a = ''OFF'' then sendAscii ''0'' s2
                else if a = ''TOGGLE'' then sendAscii ''t'' s2
                else sendAscii ''s'' s2)"
      by (auto simp add: readState_def split: if_splits)
    then obtain tok where "sendAscii tok s2 = (Inr u, s1)" by (auto split: if_splits)
    from sendAscii_trace [OF this] s2(3) show ?thesis by simp
  qed
  have c1: "\<exists>s'. bulkCsv up csv act s = Some s'" by (rule bulkCsv_total)
  have c2: "bulkCsv up csv act s =
          bulk_loop (filter (\<lambda>i. i \<noteq> []) (map js_trim (js_split (js_trim csv))))
            (up (if act = [] then ''ON'' else act)) (clearError s)" if "js_trim csv \<noteq> []"
    using that by (simp add: bulkCsv_def Let_def)
  have c3: "bulk_loop (i # ids) a s =
          bulk_loop ids a (s\<lparr>lastError := ''ID '' @ i @ '': '' @ msg_unknown_id @ i\<rparr>)"
    if "findById i s = None"
    using that by (simp add: connectSendById_unknown msg_unknown_id_def)
  have c4: "bulk_loop (i # ids) a s =
          bulk_loop ids a (s1\<lparr>lastError := ''ID '' @ i @ '': '' @ message_or_self e\<rparr>)"
    if "connectSendById i a s = Some (Inl e, s1)"
    using that by simp
  have c6: "bulk_loop (i # ids) a s = bulk_loop ids a s1"
    if "connectSendById i a s = Some (Inr u, s1)"
    using that by simp
  have c7: "connectAndSetup d (s\<lparr>lastError := x\<rparr>) = Some (Inr u, s2)"
    if "connectAndSetup d s = Some (Inr u, s2)"
    using that by (rule connectAndSetup_forgets_error)
  from c1 c2 c3 c4 c5 c6 c7 bulk_loop_append [of xs ys a s] show ?thesis by blast
qed

text \<open>In the example world: after a and b the last error is "ID b: unknown ID: b"; a
  rejected connect of a is stored as "ID a: out of range"; and connecting a clears an
  earlier "ID b: ..." error.\<close>

theorem bulkCsv_isolates_failures_witness:
  "js_trim ''a,b,c'' \<noteq> []
   \<and> filter (\<lambda>i. i \<noteq> []) (map js_trim (js_split (js_trim ''a,b,c''))) = [''a'', ''b'', ''c'']
   \<and> findById ''b'' both_known = None
   \<and> (\<exists>s1. connectSendById ''a'' ''OFF'' both_known = Some (Inr (), s1)
          \<and> findById ''b'' s1 = None
          \<and> (\<exists>s'. bulk_loop [''a'', ''b''] ''OFF'' both_known = Some s'
                 \<and> lastError s' = ''ID b: '' @ msg_unknown_id @ ''b''))
   \<and> (\<exists>s1. connectSendById ''a'' ''OFF'' connect_13_fails
            = Some (Inl (Err ''NetworkError'' ''out of range''), s1)
          \<and> bulk_loop [''a''] ''OFF'' connect_13_fails
            = Some (s1\<lparr>lastError := ''ID a: out of range''\<rparr>))
   \<and> findById ''a'' (both_known\<lparr>lastError := ''ID b: earlier''\<rparr>) = Some 1
   \<and> device (both_known\<lparr>lastError := ''ID b: earlier''\<rparr>) = Some 2
   \<and> dev_id (heap both_known 2) \<noteq> dev_id (heap both_known 1)
   \<and> \<not> gatt_connected (heap (both_known\<lparr>lastError := ''ID b: earlier''\<rparr>) 1)
   \<and> sendQueue (both_known\<lparr>lastError := ''ID b: earlier''\<rparr>) = []
   \<and> (\<exists>s1. connectSendById ''a'' ''OFF'' (both_known\<lparr>lastError := ''ID b: earlier''\<rparr>)
            = Some (Inr (), s1) \<and> lastError s1 = [])
   \<and> (\<exists>s2. connectAndSetup 1 both_known = Some (Inr (), s2)
          \<and> connectAndSetup 1 (both_known\<lparr>lastError := ''ID b: earlier''\<rparr>)
            = Some (Inr (), s2))"
proof -
  let ?e = "both_known\<lparr>lastError := ''ID b: earlier''\<rparr>"
  have ids: "filter (\<lambda>i. i \<noteq> []) (map js_trim (js_split (js_trim ''a,b,c''))) = [''a'', ''b'', ''c'']"
    by (simp add: trim_abc)
  have ne: "js_trim ''a,b,c'' \<noteq> []" by (simp add: trim_abc)
  have "\<exists>s1. connectSendById ''a'' ''OFF'' both_known = Some (Inr (), s1) \<and> findById ''b'' s1 = None"
    by (simp add: both_known_def eval_defs scanned_ac_def linked_def scanned_a_def world_defs)
  then obtain s1 where s1: "connectSendById ''a'' ''OFF'' both_known = Some (Inr (), s1)"
    "findById ''b'' s1 = None" by blast
  from bulkCsv_isolates_failures [of ascii_upper "''a,b,c''" "''OFF''" both_known "[]" "[]" "''OFF''" "''a''" "[''b'']"
      "Str []" s1 "()" 1] s1(1)
  have st1: "bulk_loop [''a'', ''b''] ''OFF'' both_known = bulk_loop [''b''] ''OFF'' s1" by simp
  from bulkCsv_isolates_failures [of ascii_upper "''a,b,c''" "''OFF''" s1 "[]" "[]" "''OFF''" "''b''" "[]"
      "Str []" s1 "()" 1] s1(2)
  have st2: "bulk_loop [''b''] ''OFF'' s1 =
      Some (s1\<lparr>lastError := ''ID b: '' @ msg_unknown_id @ ''b''\<rparr>)" by simp
  from st1 st2 have a: "\<exists>s'. bulk_loop [''a'', ''b''] ''OFF'' both_known = Some s'
                 \<and> lastError s' = ''ID b: '' @ msg_unknown_id @ ''b''" by simp
  have "\<exists>s2. connectSendById ''a'' ''OFF'' connect_13_fails
            = Some (Inl (Err ''NetworkError'' ''out of range''), s2)"
    by (simp add: connect_13_fails_def both_known_def eval_defs scanned_ac_def linked_def
        scanned_a_def world_defs)
  then obtain s2 where s2: "connectSendById ''a'' ''OFF'' connect_13_fails
            = Some (Inl (Err ''NetworkError'' ''out of range''), s2)" by blast
  from bulkCsv_isolates_failures [of ascii_upper "''a,b,c''" "''OFF''" connect_13_fails "[]" "[]" "''OFF''" "''a''" "[]"
      "Err ''NetworkError'' ''out of range''" s2 "()" 1] s2
  have b: "bulk_loop [''a''] ''OFF'' connect_13_fails
            = Some (s2\<lparr>lastError := ''ID a: out of range''\<rparr>)" by simp
  have e: "findById ''a'' ?e = Some 1" "device ?e = Some 2"
    "dev_id (heap ?e 2) \<noteq> dev_id (heap ?e 1)" "\<not> gatt_connected (heap ?e 1)"
    "sendQueue ?e = []"
    using both_known_facts by (simp_all add: findById_def)
  have "\<exists>s3. connectSendById ''a'' ''OFF'' ?e = Some (Inr (), s3)"
    by (simp add: both_known_def eval_defs scanned_ac_def linked_def scanned_a_def world_defs)
  then obtain s3 where s3: "connectSendById ''a'' ''OFF'' ?e = Some (Inr (), s3)" by blast
  from bulkCsv_isolates_failures [of ascii_upper "''a,b,c''" "''OFF''" ?e "[]" "[]" "''OFF''" "''a''" "[]"
      "Str []" s3 "()" 1] e s3
  have c: "lastError s3 = []" by simp
  have "\<exists>s4. connectAndSetup 1 both_known = Some (Inr (), s4)"
    by (simp add: both_known_def eval_defs scanned_ac_def linked_def scanned_a_def world_defs)
  then obtain s4 where s4: "connectAndSetup 1 both_known = Some (Inr (), s4)" by blast
  from bulkCsv_isolates_failures [of ascii_upper "''a,b,c''" "''OFF''" both_known "[]" "[]" "''OFF''" "''a''" "[]"
      "Str []" s3 "()" 1 1 s4 "''ID b: earlier''"] s4
  have d: "connectAndSetup 1 ?e = Some (Inr (), s4)" by blast
  from ne ids both_known_facts(2) s1 a s2 b e s3 c have "js_trim ''a,b,c'' \<noteq> []
   \<and> filter (\<lambda>i. i \<noteq> []) (map js_trim (js_split (js_trim ''a,b,c''))) = [''a'', ''b'', ''c'']
   \<and> findById ''b'' both_known = None
   \<and> (\<exists>s1. connectSendById ''a'' ''OFF'' both_known = Some (Inr (), s1)
          \<and> findById ''b'' s1 = None
          \<and> (\<exists>s'. bulk_loop [''a'', ''b''] ''OFF'' both_known = Some s'
                 \<and> lastError s' = ''ID b: '' @ msg_unknown_id @ ''b''))
   \<and> (\<exists>s1. connectSendById ''a'' ''OFF'' connect_13_fails
            = Some (Inl (Err ''NetworkError'' ''out of range''), s1)
          \<and> bulk_loop [''a''] ''OFF'' connect_13_fails
            = Some (s1\<lparr>lastError := ''ID a: out of range''\<rparr>))
   \<and> findById ''a'' ?e = Some 1
   \<and> device ?e = Some 2
   \<and> dev_id (heap both_known 2) \<noteq> dev_id (heap both_known 1)
   \<and> \<not> gatt_connected (heap ?e 1)
   \<and> sendQueue ?e = []
   \<and> (\<exists>s1. connectSendById ''a'' ''OFF'' ?e = Some (Inr (), s1) \<and> lastError s1 = [])"
    by auto
  with s4 d show ?thesis by blast
qed

subsection \<open>C9: the last error after a connection\<close>




subsection \<open>C10: the action of a bulk dispatch\<close>

text \<open>
  C10, as stated, fails for the empty action string: it is none of ON, OFF and TOGGLE,
  but \<^verbatim>\<open>args.act || 'ON'\<close> makes it ON, and "1" is written, not "s".
\<close>

theorem bulkCsv_default_is_read_counterexample:
  "reachable both_known
   \<and> ([] \<notin> {''ON'', ''OFF'', ''TOGGLE''}
      \<and> findById ''a'' both_known = Some 1
      \<and> map_option trace (bulkCsv ascii_upper ''a'' [] both_known)
        = Some (trace both_known @
                [GattConnect 1, GetPrimaryService 1 NUS_SERVICE,
                 GetCharacteristic 1 NUS_RX_CHAR, GetCharacteristic 1 NUS_TX_CHAR,
                 StartNotifications 1, WriteValue 1 ''1'']))"
proof (rule conjI [OF reachable_both_known])
  show "[] \<notin> {''ON'', ''OFF'', ''TOGGLE''}
      \<and> findById ''a'' both_known = Some 1
      \<and> map_option trace (bulkCsv ascii_upper ''a'' [] both_known)
        = Some (trace both_known @
                [GattConnect 1, GetPrimaryService 1 NUS_SERVICE,
                 GetCharacteristic 1 NUS_RX_CHAR, GetCharacteristic 1 NUS_TX_CHAR,
                 StartNotifications 1, WriteValue 1 ''1''])"
    by (simp add: bulkCsv_def trim_abc upper_OFF both_known_def eval_defs
        scanned_ac_def linked_def scanned_a_def world_defs)
qed

text \<open>
  C10, amended. An empty action is ON. Any other action is upper-cased, and when the
  result is none of ON, OFF and TOGGLE, \<open>bulkCsv\<close> does what it does for READ: for
  every id, \<open>connectSendById\<close> behaves as with READ, that is, once the id is resolved and
  its device connected, it calls \<open>sendAscii\<close> with "s". For a device that had to be
  connected the "s" is written to that device; for the active device, already connected,
  it is written to the write channel.
\<close>

theorem bulkCsv_default_is_read:
  "(a \<notin> {''ON'', ''OFF'', ''TOGGLE''} \<longrightarrow>
      connectSendById i a s = connectSendById i ''READ'' s
      \<and> bulk_loop ids a s = bulk_loop ids ''READ'' s)
   \<and> (act \<noteq> [] \<and> up act \<notin> {''ON'', ''OFF'', ''TOGGLE''} \<longrightarrow>
      bulkCsv up csv act s =
        (if js_trim csv = [] then Some (clearError s)
         else bulk_loop (filter (\<lambda>i. i \<noteq> []) (map js_trim (js_split (js_trim csv))))
                ''READ'' (clearError s)))
   \<and> bulkCsv up csv [] s = bulkCsv up csv ''ON'' s
   \<and> (a \<notin> {''ON'', ''OFF'', ''TOGGLE''} \<and> findById i s = Some dev \<and> device s = Some dev
        \<and> gatt_connected (heap s dev) \<and> connected s \<and> rxChar s = Some h \<longrightarrow>
      connectSendById i a s = Some (transport (WriteValue h ''s'') s))
   \<and> (a \<notin> {''ON'', ''OFF'', ''TOGGLE''} \<and> findById i s = Some dev
        \<and> (device s = None
           \<or> (\<exists>cur. device s = Some cur \<and> dev_id (heap s cur) \<noteq> dev_id (heap s dev)))
        \<and> \<not> gatt_connected (heap s dev)
        \<and> connectAndSetup dev (s\<lparr>device := Some dev, deviceName := dev_name (heap s dev),
                                    deviceId := dev_id (heap s dev)\<rparr>) = Some (Inr u, s2) \<longrightarrow>
      connectSendById i a s = Some (transport (WriteValue dev ''s'') s2))"
proof -
  have c2: "bulkCsv up csv act s =
        (if js_trim csv = [] then Some (clearError s)
         else bulk_loop (filter (\<lambda>i. i \<noteq> []) (map js_trim (js_split (js_trim csv))))
                ''READ'' (clearError s))"
    if "act \<noteq> []" "up act \<notin> {''ON'', ''OFF'', ''TOGGLE''}"
    using that bulk_loop_default [of "up act"] by (simp add: bulkCsv_def Let_def)
  have c3: "bulkCsv up csv [] s = bulkCsv up csv ''ON'' s"
    by (simp add: bulkCsv_def)
  have c4: "connectSendById i a s = Some (transport (WriteValue h ''s'') s)"
    if "a \<notin> {''ON'', ''OFF'', ''TOGGLE''}" "findById i s = Some dev" "device s = Some dev"
      "gatt_connected (heap s dev)" "connected s" "rxChar s = Some h"
    using that
    by (simp add: connectSendById_def readState_def sendAscii_def writeValue_def)
  have c5: "connectSendById i a s = Some (transport (WriteValue dev ''s'') s2)"
    if h: "a \<notin> {''ON'', ''OFF'', ''TOGGLE''}" "findById i s = Some dev"
      "device s = None \<or> (\<exists>cur. device s = Some cur \<and> dev_id (heap s cur) \<noteq> dev_id (heap s dev))"
      "\<not> gatt_connected (heap s dev)"
      "connectAndSetup dev (s\<lparr>device := Some dev, deviceName := dev_name (heap s dev),
                                    deviceId := dev_id (heap s dev)\<rparr>) = Some (Inr u, s2)"
  proof -
    from connectAndSetup_success [OF h(5)] have "connected s2" "rxChar s2 = Some dev" by simp_all
    then have "sendAscii ''s'' s2 = transport (WriteValue dev ''s'') s2"
      by (simp add: sendAscii_def writeValue_def)
    with connectSendById_switch [OF h(2,3,4), of a] h(1,5) show ?thesis
      by (simp add: readState_def)
  qed
  from c2 c3 c4 c5 connectSendById_default [of a i s] bulk_loop_default [of a ids s]
  show ?thesis by blast
qed

text \<open>The junk action "blink" reads the state of the first relay, connected or not.\<close>

theorem bulkCsv_default_is_read_witness:
  "''BLINK'' \<notin> {''ON'', ''OFF'', ''TOGGLE''}
   \<and> connectSendById ''a'' ''BLINK'' both_known = connectSendById ''a'' ''READ'' both_known
   \<and> ''blink'' \<noteq> [] \<and> ascii_upper ''blink'' \<notin> {''ON'', ''OFF'', ''TOGGLE''}
   \<and> bulkCsv ascii_upper ''a'' ''blink'' both_known
       = bulk_loop [''a''] ''READ'' (clearError both_known)
   \<and> findById ''a'' linked = Some 1 \<and> device linked = Some 1
   \<and> gatt_connected (heap linked 1) \<and> connected linked \<and> rxChar linked = Some 1
   \<and> connectSendById ''a'' ''BLINK'' linked
       = Some (Inr (), linked\<lparr>trace := trace linked @ [WriteValue 1 ''s'']\<rparr>)
   \<and> findById ''a'' both_known = Some 1 \<and> device both_known = Some 2
   \<and> dev_id (heap both_known 2) \<noteq> dev_id (heap both_known 1)
   \<and> \<not> gatt_connected (heap both_known 1)
   \<and> (\<exists>s2. connectAndSetup 1 (both_known\<lparr>device := Some 1,
               deviceName := dev_name (heap both_known 1),
               deviceId := dev_id (heap both_known 1)\<rparr>) = Some (Inr (), s2)
          \<and> connectSendById ''a'' ''BLINK'' both_known
               = Some (Inr (), s2\<lparr>trace := trace s2 @ [WriteValue 1 ''s'']\<rparr>))"
proof -
  have j: "''BLINK'' \<notin> {''ON'', ''OFF'', ''TOGGLE''}" by simp
  have u: "''blink'' \<noteq> []" "ascii_upper ''blink'' \<notin> {''ON'', ''OFF'', ''TOGGLE''}"
    by (simp_all add: upper_blink)
  have l: "findById ''a'' linked = Some 1" "device linked = Some 1"
    "gatt_connected (heap linked 1)" "connected linked" "rxChar linked = Some 1"
    "io_result linked (length (trace linked)) = None"
    by (simp_all add: findById_def linked_def scanned_a_def world_defs)
  let ?sw = "both_known\<lparr>device := Some 1, deviceName := dev_name (heap both_known 1),
               deviceId := dev_id (heap both_known 1)\<rparr>"
  have "\<exists>s2. connectAndSetup 1 ?sw = Some (Inr (), s2) \<and> io_result s2 (length (trace s2)) = None"
    by (simp add: both_known_def eval_defs scanned_ac_def linked_def scanned_a_def world_defs)
  then obtain s2 where s2: "connectAndSetup 1 ?sw = Some (Inr (), s2)"
    "io_result s2 (length (trace s2)) = None" by blast
  from bulkCsv_default_is_read [of "''BLINK''" "''a''" both_known "[]" "''blink''" ascii_upper "''a''" 1 1 "()" s2] j
  have a: "connectSendById ''a'' ''BLINK'' both_known = connectSendById ''a'' ''READ'' both_known"
    by blast
  from bulkCsv_default_is_read [of "''BLINK''" "''a''" both_known "[]" "''blink''" ascii_upper "''a''" 1 1 "()" s2] u
  have b: "bulkCsv ascii_upper ''a'' ''blink'' both_known
       = bulk_loop [''a''] ''READ'' (clearError both_known)"
    by (simp add: trim_abc)
  from bulkCsv_default_is_read [of "''BLINK''" "''a''" linked "[]" "''blink''" ascii_upper "''a''" 1 1 "()" s2] j l
  have "connectSendById ''a'' ''BLINK'' linked = Some (transport (WriteValue 1 ''s'') linked)"
    by blast
  with l(6) have c: "connectSendById ''a'' ''BLINK'' linked
       = Some (Inr (), linked\<lparr>trace := trace linked @ [WriteValue 1 ''s'']\<rparr>)"
    by (simp add: transport_def)
  have k: "findById ''a'' both_known = Some 1" "device both_known = Some 2"
    "dev_id (heap both_known 2) \<noteq> dev_id (heap both_known 1)"
    "\<not> gatt_connected (heap both_known 1)"
    using both_known_facts by simp_all
  from bulkCsv_default_is_read [of "''BLINK''" "''a''" both_known "[]" "''blink''" ascii_upper "''a''" 1 1 "()" s2]
    j k s2(1)
  have "connectSendById ''a'' ''BLINK'' both_known = Some (transport (WriteValue 1 ''s'') s2)"
    by blast
  with s2(2) have d: "connectSendById ''a'' ''BLINK'' both_known
               = Some (Inr (), s2\<lparr>trace := trace s2 @ [WriteValue 1 ''s'']\<rparr>)"
    by (simp add: transport_def)
  from j a u b l(1-5) c k s2(1) d show ?thesis by blast
qed

end
